theory Spec2Isabelle
  imports Complex_Main "HOL-Library.Sublist"
begin

section \<open>Time values and calendar arithmetic of the JavaScript \<open>Date\<close> object\<close>

text \<open>
  The comparator page and the stock route compute with \<open>Date\<close> objects. A \<open>Date\<close> is its
  time value: the number of milliseconds since 1970-01-01T00:00:00Z, here an \<open>int\<close>
  (the invalid date \<open>NaN\<close> and the clipping of time values beyond 8.64e15 ms are left out).
  The functions below are the abstract operations of the ECMAScript specification
  (section "Date Objects"), with their names; \<open>div\<close> and \<open>mod\<close> on \<open>int\<close> are the
  specification's \<open>floor\<close> and \<open>modulo\<close>.
\<close>

type_synonym Date = int

definition msPerDay :: int where
  "msPerDay = 86400000"

definition Day :: "int \<Rightarrow> int" where
  "Day t = t div msPerDay"

definition TimeWithinDay :: "int \<Rightarrow> int" where
  "TimeWithinDay t = t mod msPerDay"

definition DaysInYear :: "int \<Rightarrow> int" where
  "DaysInYear y =
     (if y mod 4 \<noteq> 0 then 365
      else if y mod 100 \<noteq> 0 then 366
      else if y mod 400 \<noteq> 0 then 365
      else 366)"

definition DayFromYear :: "int \<Rightarrow> int" where
  "DayFromYear y =
     365 * (y - 1970) + (y - 1969) div 4 - (y - 1901) div 100 + (y - 1601) div 400"

text \<open>
  \<open>YearFromTime t\<close> is, in the specification, the largest \<open>y\<close> whose year starts at or
  before \<open>t\<close>. It is computed here from the mean length of a Gregorian year (146097 days
  in 400 years), corrected by at most one year; lemma \<open>YearFromDay_bounds\<close> shows that this
  is the year of the specification.
\<close>

definition YearFromDay :: "int \<Rightarrow> int" where
  "YearFromDay d =
     (let c = 1970 + (400 * d) div 146097
      in if d < DayFromYear c then c - 1
         else if DayFromYear (c + 1) \<le> d then c + 1
         else c)"

definition YearFromTime :: "int \<Rightarrow> int" where
  "YearFromTime t = YearFromDay (Day t)"

definition InLeapYear :: "int \<Rightarrow> int" where
  "InLeapYear t = (if DaysInYear (YearFromTime t) = 366 then 1 else 0)"

definition DayWithinYear :: "int \<Rightarrow> int" where
  "DayWithinYear t = Day t - DayFromYear (YearFromTime t)"

text \<open>
  \<open>daysBeforeMonth l m\<close>: the number of days of the year that precede month \<open>m\<close>
  (0 = January), in a year with \<open>l\<close> leap days. These are the boundaries in the
  specification's tables for \<open>MonthFromTime\<close> and \<open>DateFromTime\<close>.
\<close>

definition daysBeforeMonth :: "int \<Rightarrow> int \<Rightarrow> int" where
  "daysBeforeMonth l m =
     (if m \<le> 0 then 0
      else if m = 1 then 31
      else if m = 2 then 59 + l
      else if m = 3 then 90 + l
      else if m = 4 then 120 + l
      else if m = 5 then 151 + l
      else if m = 6 then 181 + l
      else if m = 7 then 212 + l
      else if m = 8 then 243 + l
      else if m = 9 then 273 + l
      else if m = 10 then 304 + l
      else if m = 11 then 334 + l
      else 365 + l)"

definition MonthFromTime :: "int \<Rightarrow> int" where
  "MonthFromTime t =
     (let d = DayWithinYear t; l = InLeapYear t
      in if d < 31 then 0
         else if d < 59 + l then 1
         else if d < 90 + l then 2
         else if d < 120 + l then 3
         else if d < 151 + l then 4
         else if d < 181 + l then 5
         else if d < 212 + l then 6
         else if d < 243 + l then 7
         else if d < 273 + l then 8
         else if d < 304 + l then 9
         else if d < 334 + l then 10
         else 11)"

definition DateFromTime :: "int \<Rightarrow> int" where
  "DateFromTime t =
     DayWithinYear t - daysBeforeMonth (InLeapYear t) (MonthFromTime t) + 1"

text \<open>
  \<open>MakeDay year month date\<close>: the day number of the first of the month
  (\<open>month\<close> is 0-based and may lie outside 0..11, carrying into the year), plus
  \<open>date - 1\<close>; a \<open>date\<close> outside the month carries into the neighbouring months.
\<close>

definition MakeDay :: "int \<Rightarrow> int \<Rightarrow> int \<Rightarrow> int" where
  "MakeDay year month date =
     (let ym = year + month div 12;
          mn = month mod 12
      in DayFromYear ym
         + daysBeforeMonth (if DaysInYear ym = 366 then 1 else 0) mn
         + date - 1)"

definition MakeDate :: "int \<Rightarrow> int \<Rightarrow> int" where
  "MakeDate day time = day * msPerDay + time"

text \<open>
  \<open>Date.UTC(year, month, date)\<close>: a year from 0 to 99 means 1900 + year.
\<close>

definition Date_UTC :: "int \<Rightarrow> int \<Rightarrow> int \<Rightarrow> int" where
  "Date_UTC year month date =
     (let yr = (if 0 \<le> year \<and> year \<le> 99 then 1900 + year else year)
      in MakeDate (MakeDay yr month date) 0)"

text \<open>
  Local time. The host's offset from UTC is the parameter \<open>tza\<close> (milliseconds), taken
  constant: daylight-saving transitions are not modelled.
\<close>

definition LocalTime :: "int \<Rightarrow> int \<Rightarrow> int" where
  "LocalTime tza t = t + tza"

definition UTC :: "int \<Rightarrow> int \<Rightarrow> int" where
  "UTC tza t = t - tza"

definition getFullYear :: "int \<Rightarrow> Date \<Rightarrow> int" where
  "getFullYear tza d = YearFromTime (LocalTime tza d)"

definition getDate :: "int \<Rightarrow> Date \<Rightarrow> int" where
  "getDate tza d = DateFromTime (LocalTime tza d)"

definition setFullYear :: "int \<Rightarrow> Date \<Rightarrow> int \<Rightarrow> Date" where
  "setFullYear tza d y =
     (let t = LocalTime tza d
      in UTC tza (MakeDate (MakeDay y (MonthFromTime t) (DateFromTime t)) (TimeWithinDay t)))"

definition setDate :: "int \<Rightarrow> Date \<Rightarrow> int \<Rightarrow> Date" where
  "setDate tza d dt =
     (let t = LocalTime tza d
      in UTC tza (MakeDate (MakeDay (YearFromTime t) (MonthFromTime t) dt) (TimeWithinDay t)))"

section \<open>The comparator page (src/app/comparator/page.tsx)\<close>

subsection \<open>Data\<close>

text \<open>
  A date string \<open>YYYY-MM-DD\<close> is kept as its three numbers, as
  \<open>dateString.split('-').map(Number)\<close> reads them. \<open>isCalendarDate\<close> says that the
  string is a date of the calendar with a four-digit year; any other string is outside
  the model (its \<open>Date\<close> would be invalid). A \<open>number\<close> that is a price or a value is
  a real: the rounding of floating-point arithmetic is not modelled.
\<close>

datatype DateString = YMD (yyyy: int) (mm: int) (dd: int)

definition DaysInMonth :: "int \<Rightarrow> int \<Rightarrow> int" where
  "DaysInMonth y m =
     (let l = (if DaysInYear y = 366 then 1 else 0)
      in daysBeforeMonth l m - daysBeforeMonth l (m - 1))"

fun isCalendarDate :: "DateString \<Rightarrow> bool" where
  "isCalendarDate (YMD y m d) =
     (0 \<le> y \<and> y \<le> 9999 \<and> 1 \<le> m \<and> m \<le> 12 \<and> 1 \<le> d \<and> d \<le> DaysInMonth y m)"

text \<open>
  \<open>new Date(dateString)\<close> for a date-only ISO string: midnight UTC of that day.
  \<open>getTime\<close> reads the time value.
\<close>

fun Date_of_string :: "DateString \<Rightarrow> Date" where
  "Date_of_string (YMD y m d) = MakeDate (MakeDay y (m - 1) d) 0"

definition getTime :: "Date \<Rightarrow> int" where
  "getTime d = d"

record StockPriceData =
  date :: DateString
  price :: real

record StockData =
  symbol :: string
  prices :: "StockPriceData list"
  name :: "string option"

record PerformancePoint =
  time :: int
  "value" :: real

record ComparisonResult =
  ticker1 :: string
  ticker2 :: string
  series1 :: "PerformancePoint list"
  series2 :: "PerformancePoint list"
  finalValue1 :: real
  finalValue2 :: real

record Processed =
  series :: "PerformancePoint list"
  finalValue :: real

subsection \<open>dateToUTCTimestamp\<close>

text \<open>
  \<open>Date.UTC(year, month - 1, day) / 1000\<close>. The time value of a midnight is a multiple
  of 1000 (lemma \<open>Date_UTC_seconds\<close>), so the division is exact.
\<close>

fun dateToUTCTimestamp :: "DateString \<Rightarrow> int" where
  "dateToUTCTimestamp (YMD year month day) = Date_UTC year (month - 1) day div 1000"

subsection \<open>getTimeframeStartDate\<close>

definition getTimeframeStartDate :: "int \<Rightarrow> Date \<Rightarrow> string \<Rightarrow> Date" where
  "getTimeframeStartDate tza endDate option =
     (if option = ''1y'' then
        (let result = setFullYear tza endDate (getFullYear tza endDate - 1)
         in setDate tza result (getDate tza result - 1))
      else if option = ''3y'' then
        (let result = setFullYear tza endDate (getFullYear tza endDate - 3)
         in setDate tza result (getDate tza result - 1))
      else if option = ''5y'' then
        (let result = setFullYear tza endDate (getFullYear tza endDate - 5)
         in setDate tza result (getDate tza result - 1))
      else if option = ''all'' then 0
      else
        (let result = setFullYear tza endDate (getFullYear tza endDate - 1)
         in setDate tza result (getDate tza result - 1)))"

subsection \<open>processData\<close>

text \<open>
  \<open>Array.prototype.findIndex\<close>: the index of the first element that satisfies the
  predicate, or -1.
\<close>

fun findIndex :: "('a \<Rightarrow> bool) \<Rightarrow> 'a list \<Rightarrow> int" where
  "findIndex P [] = - 1"
| "findIndex P (x # xs) =
     (if P x then 0
      else (let i = findIndex P xs in if i = - 1 then - 1 else i + 1))"

text \<open>
  \<open>[...prices].sort((a, b) => new Date(a.date).getTime() - new Date(b.date).getTime())\<close>:
  \<open>Array.prototype.sort\<close> is stable and the comparator orders by the time value, so the
  result is the stable sort by that key, which is \<open>sort_key\<close>.
\<close>

definition dateKey :: "StockPriceData \<Rightarrow> int" where
  "dateKey p = getTime (Date_of_string (date p))"

definition sortPrices :: "StockPriceData list \<Rightarrow> StockPriceData list" where
  "sortPrices ps = sort_key dateKey ps"

definition performancePoint :: "real \<Rightarrow> StockPriceData \<Rightarrow> PerformancePoint" where
  "performancePoint startPrice point =
     \<lparr>time = dateToUTCTimestamp (date point),
      value = 100 * (price point / startPrice)\<rparr>"

definition processData :: "StockData list \<Rightarrow> Date \<Rightarrow> Processed option" where
  "processData stockData startDate =
     (case stockData of
        [] \<Rightarrow> None
      | sd # _ \<Rightarrow>
          if length (prices sd) = 0 then None
          else
            let ps = sortPrices (prices sd);
                startIndex = findIndex (\<lambda>p. dateKey p \<ge> getTime startDate) ps
            in if startIndex = - 1 \<or> startIndex \<ge> int (length ps) then None
               else
                 let startPrice = price (ps ! nat startIndex)
                 in if startPrice \<le> 0 then None
                    else
                      let relevantPrices = drop (nat startIndex) ps;
                          performanceSeries = map (performancePoint startPrice) relevantPrices;
                          finalValue =
                            (if length performanceSeries > 0
                             then value (performanceSeries ! (length performanceSeries - 1))
                             else 100)
                      in Some \<lparr>series = performanceSeries, finalValue = finalValue\<rparr>)"

subsection \<open>fetchComparisonData\<close>

text \<open>
  The page state that the orchestrator writes, and what it reads from the network.
  \<open>await Promise.all([fetch(..), fetch(..)])\<close> either throws (a fetch was rejected; the
  message of the error is kept) or gives the two responses; \<open>response.json()\<close> either
  throws or gives the parsed body. A thrown error is its message; an error without a
  message is the empty string. The state updates are applied in program order, with no
  other update of the page in between.
\<close>

record PageState =
  comparisonData :: "ComparisonResult option"
  loading :: bool
  error :: string

datatype JsonResult = JsonThrows string | JsonValue StockData

record Response =
  ok :: bool
  json :: JsonResult

datatype FetchResult = FetchRejected string | FetchResolved Response Response

text \<open>\<open>String.prototype.toUpperCase\<close>, on ASCII letters.\<close>

definition toUpperChar :: "char \<Rightarrow> char" where
  "toUpperChar c =
     (let n = (of_char c :: nat)
      in if 97 \<le> n \<and> n \<le> 122 then char_of (n - 32) else c)"

definition toUpperCase :: "string \<Rightarrow> string" where
  "toUpperCase s = map toUpperChar s"

text \<open>
  The body of the \<open>try\<close> block: \<open>Inl\<close> is the message of the error thrown,
  \<open>Inr\<close> the value passed to \<open>setComparisonData\<close>.
\<close>

definition fetchTry :: "string \<Rightarrow> string \<Rightarrow> Date \<Rightarrow> FetchResult \<Rightarrow> string + ComparisonResult" where
  "fetchTry t1 t2 startDate fetched =
     (case fetched of
        FetchRejected msg \<Rightarrow> Inl msg
      | FetchResolved response1 response2 \<Rightarrow>
          if \<not> ok response1 \<or> \<not> ok response2 then
            Inl (''Failed to fetch stock data.''
                 @ (if \<not> ok response1 then '' Check ticker '' @ t1 @ ''.'' else [])
                 @ (if \<not> ok response2 then '' Check ticker '' @ t2 @ ''.'' else []))
          else
            (case json response1 of
               JsonThrows msg \<Rightarrow> Inl msg
             | JsonValue data1 \<Rightarrow>
                 (case json response2 of
                    JsonThrows msg \<Rightarrow> Inl msg
                  | JsonValue data2 \<Rightarrow>
                      let processed1 = processData [data1] startDate;
                          processed2 = processData [data2] startDate
                      in if processed1 = None \<or> processed2 = None then
                           Inl (''Could not process data for comparison.''
                                @ (if processed1 = None
                                   then '' Check data availability for '' @ t1 @ ''.'' else [])
                                @ (if processed2 = None
                                   then '' Check data availability for '' @ t2 @ ''.'' else []))
                         else
                           Inr \<lparr>ticker1 = toUpperCase t1,
                                ticker2 = toUpperCase t2,
                                series1 = series (the processed1),
                                series2 = series (the processed2),
                                finalValue1 = finalValue (the processed1),
                                finalValue2 = finalValue (the processed2)\<rparr>)))"

definition fetchComparisonData ::
  "int \<Rightarrow> Date \<Rightarrow> string \<Rightarrow> string \<Rightarrow> string \<Rightarrow> FetchResult \<Rightarrow> PageState \<Rightarrow> PageState" where
  "fetchComparisonData tza now t1 t2 timeframe fetched s =
     (if t1 = [] \<or> t2 = [] then s\<lparr>comparisonData := None, error := []\<rparr>
      else
        let s1 = s\<lparr>loading := True, error := []\<rparr>;
            endDate = now;
            startDate = getTimeframeStartDate tza endDate timeframe;
            s2 = (case fetchTry t1 t2 startDate fetched of
                    Inr result \<Rightarrow> s1\<lparr>comparisonData := Some result\<rparr>
                  | Inl message \<Rightarrow>
                      s1\<lparr>error := (if message = [] then ''An unknown error occurred.'' else message),
                         comparisonData := None\<rparr>)
        in s2\<lparr>loading := False\<rparr>)"

subsection \<open>The debounce effect\<close>

text \<open>
  The effect runs once for each change of the inputs, with the values of that change.
  Its timer is kept by the host: a pending timer has an identifier, the time at which it
  fires and the inputs that its callback's \<open>fetchComparisonData\<close> closes over. The
  clock counts milliseconds; a timer fires when the clock reaches its time. \<open>calls\<close>
  lists the invocations of \<open>fetchComparisonData\<close>, oldest first.
\<close>

record Inputs =
  inTicker1 :: string
  inTicker2 :: string
  inTimeframe :: string

record Timer =
  timerId :: nat
  fireAt :: nat
  captured :: Inputs

record Trigger =
  clock :: nat
  debounceTimerRef :: "nat option"
  timers :: "Timer list"
  nextTimerId :: nat
  calls :: "Inputs list"
  page :: PageState

definition clearTimeout :: "nat \<Rightarrow> Trigger \<Rightarrow> Trigger" where
  "clearTimeout i st = st\<lparr>timers := filter (\<lambda>tm. timerId tm \<noteq> i) (timers st)\<rparr>"

definition setTimeout :: "Inputs \<Rightarrow> nat \<Rightarrow> Trigger \<Rightarrow> nat \<times> Trigger" where
  "setTimeout inp delay st =
     (nextTimerId st,
      st\<lparr>timers := timers st @ [\<lparr>timerId = nextTimerId st, fireAt = clock st + delay, captured = inp\<rparr>],
         nextTimerId := nextTimerId st + 1\<rparr>)"

text \<open>The cleanup function returned by the previous run of the effect.\<close>

definition effectCleanup :: "Trigger \<Rightarrow> Trigger" where
  "effectCleanup st =
     (case debounceTimerRef st of None \<Rightarrow> st | Some i \<Rightarrow> clearTimeout i st)"

definition effectBody :: "Inputs \<Rightarrow> Trigger \<Rightarrow> Trigger" where
  "effectBody inp st =
     (let st1 = st\<lparr>page := (page st)\<lparr>comparisonData := None, error := []\<rparr>\<rparr>;
          st2 = (case debounceTimerRef st1 of None \<Rightarrow> st1 | Some i \<Rightarrow> clearTimeout i st1)
      in if inTicker1 inp \<noteq> [] \<and> inTicker2 inp \<noteq> [] then
           (let st3 = st2\<lparr>page := (page st2)\<lparr>loading := True\<rparr>\<rparr>;
                (i, st4) = setTimeout inp 500 st3
            in st4\<lparr>debounceTimerRef := Some i\<rparr>)
         else st2\<lparr>page := (page st2)\<lparr>loading := False\<rparr>\<rparr>)"

text \<open>
  Time passes up to \<open>t\<close>: the timers due by then fire, earliest first, each one calling
  \<open>fetchComparisonData\<close> with its captured inputs.
\<close>

definition advanceTo :: "nat \<Rightarrow> Trigger \<Rightarrow> Trigger" where
  "advanceTo t st =
     (let due = sort_key fireAt (filter (\<lambda>tm. fireAt tm \<le> t) (timers st))
      in st\<lparr>clock := max (clock st) t,
            timers := filter (\<lambda>tm. \<not> fireAt tm \<le> t) (timers st),
            calls := calls st @ map captured due\<rparr>)"

text \<open>An input change at time \<open>t\<close>: the render commits and the effect runs again.\<close>

datatype Change = Change nat Inputs

fun inputChange :: "Trigger \<Rightarrow> Change \<Rightarrow> Trigger" where
  "inputChange st (Change t inp) = effectBody inp (effectCleanup (advanceTo t st))"

definition inputChanges :: "Change list \<Rightarrow> Trigger \<Rightarrow> Trigger" where
  "inputChanges cs st = foldl inputChange st cs"

text \<open>
  At most one timer is pending, and it is the one that \<open>debounceTimerRef\<close> holds. This
  holds when the page mounts (\<open>mounted\<close>: no ticker typed yet) and after every step.
\<close>

definition timerOwned :: "Trigger \<Rightarrow> bool" where
  "timerOwned st =
     ((\<forall>tm \<in> set (timers st). debounceTimerRef st = Some (timerId tm))
      \<and> length (timers st) \<le> 1)"

definition mounted :: Trigger where
  "mounted =
     effectBody \<lparr>inTicker1 = [], inTicker2 = [], inTimeframe = ''1y''\<rparr>
       \<lparr>clock = 0, debounceTimerRef = None, timers = [], nextTimerId = 1, calls = [],
        page = \<lparr>comparisonData = None, loading = False, error = []\<rparr>\<rparr>"

section \<open>The stock route (\<open>GET /api/stock\<close>)\<close>

text \<open>
  The data provider is outside the program: \<open>yahooFinance.chart\<close> and
  \<open>yahooFinance.quote\<close> are parameters, each either throwing an error (with its optional
  \<open>message\<close> and \<open>code\<close>) or returning. A quote row carries the day as a \<open>Date\<close> and
  numbers that may be null.
\<close>

record ProviderError =
  message :: "string option"
  code :: "string option"

datatype 'a Outcome = Throws ProviderError | Returns 'a

record Quote =
  q_date :: Date
  q_adjclose :: "real option"
  q_open :: "real option"
  q_high :: "real option"
  q_low :: "real option"
  q_close :: "real option"

record QuoteInfo =
  longName :: "string option"
  shortName :: "string option"

record PriceRow = StockPriceData +
  "open" :: real
  high :: real
  low :: real
  close :: real

datatype ResponseBody =
    ErrorBody string
  | StockDataBody string string "PriceRow list"

record HttpResponse =
  status :: nat
  body :: ResponseBody

text \<open>
  \<open>Number.parseFloat(x.toFixed(2))\<close>: \<open>toFixed\<close> takes the integer \<open>n\<close> with
  \<open>n / 100\<close> nearest to \<open>x\<close>, the larger one of two, after setting the sign of a
  negative \<open>x\<close> aside. Numbers are reals here, so the result is the decimal itself and
  not the double nearest to it.
\<close>

definition toFixed2 :: "real \<Rightarrow> real" where
  "toFixed2 x =
     (if x < 0 then - (of_int \<lfloor>(- x) * 100 + 1 / 2\<rfloor> / 100)
      else of_int \<lfloor>x * 100 + 1 / 2\<rfloor> / 100)"

text \<open>\<open>d.toISOString().split("T")[0]\<close>: the UTC day of a time value.\<close>

definition isoDate :: "Date \<Rightarrow> DateString" where
  "isoDate d = YMD (YearFromTime d) (MonthFromTime d + 1) (DateFromTime d)"

definition formatQuote :: "Quote \<Rightarrow> PriceRow option" where
  "formatQuote q =
     (let priceValue = (case q_adjclose q of Some a \<Rightarrow> Some a | None \<Rightarrow> q_close q)
      in if priceValue = None \<or> q_open q = None \<or> q_high q = None
            \<or> q_low q = None \<or> q_close q = None
         then None
         else Some \<lparr>date = isoDate (q_date q),
                    price = toFixed2 (the priceValue),
                    open = toFixed2 (the (q_open q)),
                    high = toFixed2 (the (q_high q)),
                    low = toFixed2 (the (q_low q)),
                    close = toFixed2 (the (q_close q))\<rparr>)"

definition formatPrices :: "Quote list \<Rightarrow> PriceRow list" where
  "formatPrices history = map the (filter (\<lambda>r. r \<noteq> None) (map formatQuote history))"

text \<open>The start of the requested range; \<open>new Date()\<close> is the parameter \<open>now\<close>.\<close>

definition routeStartDate :: "int \<Rightarrow> Date \<Rightarrow> string \<Rightarrow> Date" where
  "routeStartDate tza now timeframe =
     (let endDate = now
      in if timeframe = ''1y'' then setFullYear tza now (getFullYear tza endDate - 1)
         else if timeframe = ''3y'' then setFullYear tza now (getFullYear tza endDate - 3)
         else if timeframe = ''5y'' then setFullYear tza now (getFullYear tza endDate - 5)
         else if timeframe = ''all'' then 0
         else setFullYear tza now (getFullYear tza endDate - 2))"

text \<open>The \<open>catch\<close> block.\<close>

definition routeCatch :: "string \<Rightarrow> ProviderError \<Rightarrow> HttpResponse" where
  "routeCatch symb e =
     (if (case message e of None \<Rightarrow> False | Some m \<Rightarrow> sublist ''No data found'' m)
         \<or> code e = Some ''Not Found''
      then \<lparr>status = 404,
            body = ErrorBody (''Stock symbol '' @ symb @ '' not found or no data available'')\<rparr>
      else \<lparr>status = 500, body = ErrorBody ''Failed to fetch stock data''\<rparr>)"

definition GET ::
  "int \<Rightarrow> Date
   \<Rightarrow> (string \<Rightarrow> DateString \<Rightarrow> DateString \<Rightarrow> (Quote list option) Outcome)
   \<Rightarrow> (string \<Rightarrow> (QuoteInfo option) Outcome)
   \<Rightarrow> string option \<Rightarrow> string option \<Rightarrow> HttpResponse" where
  "GET tza now chart quote symbolParam timeframeParam =
     (let symbol = map_option toUpperCase symbolParam;
          timeframe = (case timeframeParam of None \<Rightarrow> ''2y''
                       | Some tf \<Rightarrow> if tf = [] then ''2y'' else tf)
      in (case symbol of
            None \<Rightarrow> \<lparr>status = 400, body = ErrorBody ''Stock symbol is required''\<rparr>
          | Some symb \<Rightarrow>
              (if symb = [] then \<lparr>status = 400, body = ErrorBody ''Stock symbol is required''\<rparr>
               else
                 (let endDate = now;
                      startDate = routeStartDate tza now timeframe;
                      formattedStartDate = isoDate startDate;
                      formattedEndDate = isoDate endDate
                  in (case chart symb formattedStartDate formattedEndDate of
                        Throws e \<Rightarrow> routeCatch symb e
                      | Returns chartResult \<Rightarrow>
                          (let history = (case chartResult of None \<Rightarrow> [] | Some qs \<Rightarrow> qs)
                           in (case quote symb of
                                 Throws e \<Rightarrow> routeCatch symb e
                               | Returns q \<Rightarrow>
                                   (let long = (case q of None \<Rightarrow> None | Some i \<Rightarrow> longName i);
                                        short = (case q of None \<Rightarrow> None | Some i \<Rightarrow> shortName i);
                                        name =
                                          (if long \<noteq> None \<and> long \<noteq> Some [] then the long
                                           else if short \<noteq> None \<and> short \<noteq> Some [] then the short
                                           else symb @ '' Inc.'');
                                        prices = formatPrices history
                                    in \<lparr>status = 200,
                                        body = StockDataBody symb name prices\<rparr>))))))))"

text \<open>
  Two providers used as examples below: a chart with no rows for any symbol, and a quote
  lookup that returns nothing.
\<close>

definition chartNoRows :: "string \<Rightarrow> DateString \<Rightarrow> DateString \<Rightarrow> (Quote list option) Outcome" where
  "chartNoRows symb period1 period2 = Returns (Some [])"

definition quoteNoInfo :: "string \<Rightarrow> (QuoteInfo option) Outcome" where
  "quoteNoInfo symb = Returns None"

section \<open>The Timeframe Resolver as the specification words it\<close>

text \<open>
  The specification's \<open>resolveStart\<close> for the year tokens: "subtract the corresponding
  number of calendar years from endDate, preserving month/day (with natural calendar
  overflow handling), then subtract one additional day". \<open>yearsBackMinusDay tza n endDate\<close>
  is the moment whose local day is one day before the day with the end date's month and
  day number in the year \<open>n\<close> years earlier, at the same time of day.
\<close>

definition yearsOfToken :: "string \<Rightarrow> int" where
  "yearsOfToken token = (if token = ''3y'' then 3 else if token = ''5y'' then 5 else 1)"

definition yearsBackMinusDay :: "int \<Rightarrow> int \<Rightarrow> Date \<Rightarrow> Date" where
  "yearsBackMinusDay tza n endDate =
     (let t = LocalTime tza endDate
      in UTC tza (MakeDate (MakeDay (YearFromTime t - n) (MonthFromTime t) (DateFromTime t) - 1)
                           (TimeWithinDay t)))"

section \<open>Properties of the calendar arithmetic\<close>

lemma div_succ:
  fixes a k :: int
  assumes k: "0 < k"
  shows "(a + 1) div k = a div k + (if (a + 1) mod k = 0 then 1 else 0)"
proof -
  define q r where "q = a div k" and "r = a mod k"
  have a: "a = k * q + r" and r0: "0 \<le> r" and rk: "r < k"
    using k by (simp_all add: q_def r_def)
  show ?thesis
  proof (cases "r + 1 = k")
    case True
    have e: "a + 1 = k * (q + 1) + 0" using a True by (simp add: algebra_simps)
    have "(a + 1) div k = q + 1" by (rule int_div_pos_eq[OF e]) (use k in simp_all)
    moreover have "(a + 1) mod k = 0" by (rule int_mod_pos_eq[OF e]) (use k in simp_all)
    ultimately show ?thesis by (simp add: q_def)
  next
    case False
    have e: "a + 1 = k * q + (r + 1)" using a by simp
    have b: "0 \<le> r + 1" "r + 1 < k" using r0 rk False by simp_all
    have "(a + 1) div k = q" by (rule int_div_pos_eq[OF e b])
    moreover have "(a + 1) mod k = r + 1" by (rule int_mod_pos_eq[OF e b])
    ultimately show ?thesis using r0 by (simp add: q_def)
  qed
qed

lemma mod_dvd_trans: "k dvd n \<Longrightarrow> y mod n = 0 \<Longrightarrow> y mod k = 0" for y :: int
  by auto

lemma mod_sub_multiple: "(y - k * n) mod k = y mod k" for y :: int
  using mod_mult_self2[of y k "- n"] by simp

lemma quarter_step: "(y - 1968) div 4 = (y - 1969) div 4 + (if y mod 4 = 0 then 1 else 0)" for y :: int
    using div_succ[of 4 "y - 1969"] mod_sub_multiple[of y 4 492] by simp
lemma century_step: "(y - 1900) div 100 = (y - 1901) div 100 + (if y mod 100 = 0 then 1 else 0)" for y :: int
    using div_succ[of 100 "y - 1901"] mod_sub_multiple[of y 100 19] by simp
lemma cycle_step: "(y - 1600) div 400 = (y - 1601) div 400 + (if y mod 400 = 0 then 1 else 0)" for y :: int
    using div_succ[of 400 "y - 1601"] mod_sub_multiple[of y 400 4] by simp
lemma mod_400_100: "y mod 400 = 0 \<Longrightarrow> y mod 100 = 0" for y :: int
    using mod_dvd_trans[of 100 400 y] by simp
lemma mod_100_4: "y mod 100 = 0 \<Longrightarrow> y mod 4 = 0" for y :: int
    using mod_dvd_trans[of 4 100 y] by simp

lemma DayFromYear_unfold_next:
  "DayFromYear (y + 1) = DayFromYear y + 365 + (if y mod 4 = 0 then 1 else 0)
      - (if y mod 100 = 0 then 1 else 0) + (if y mod 400 = 0 then 1 else 0)"
proof -
  have "DayFromYear (y + 1) = 365 * (y - 1969) + (y - 1968) div 4 - (y - 1900) div 100 + (y - 1600) div 400"
    by (simp add: DayFromYear_def)
  also have "\<dots> = 365 * (y - 1969) + ((y - 1969) div 4 + (if y mod 4 = 0 then 1 else 0))
       - ((y - 1901) div 100 + (if y mod 100 = 0 then 1 else 0))
       + ((y - 1601) div 400 + (if y mod 400 = 0 then 1 else 0))"
    by (simp only: quarter_step century_step cycle_step)
  also have "\<dots> = DayFromYear y + 365 + (if y mod 4 = 0 then 1 else 0)
      - (if y mod 100 = 0 then 1 else 0) + (if y mod 400 = 0 then 1 else 0)"
    unfolding DayFromYear_def by (simp only: algebra_simps)
  finally show ?thesis .
qed

lemma DaysInYear_unfold:
  "DaysInYear y = 365 + (if y mod 4 = 0 then 1 else 0)
      - (if y mod 100 = 0 then 1 else 0) + (if y mod 400 = 0 then 1 else 0)"
proof (cases "y mod 400 = 0")
  case True
  then show ?thesis using mod_400_100[of y] mod_100_4[of y] by (simp add: DaysInYear_def)
next
  case n400: False
  show ?thesis
  proof (cases "y mod 100 = 0")
    case True
    then show ?thesis using n400 mod_100_4[of y] by (simp add: DaysInYear_def)
  next
    case False
    then show ?thesis using n400 by (simp add: DaysInYear_def)
  qed
qed

lemma DayFromYear_next: "DayFromYear (y + 1) = DayFromYear y + DaysInYear y"
  by (simp only: DayFromYear_unfold_next DaysInYear_unfold) 


lemma DaysInYear_cases: "DaysInYear y = 365 \<or> DaysInYear y = 366"
  by (simp add: DaysInYear_def)

lemma DayFromYear_less_next: "DayFromYear y < DayFromYear (y + 1)"
  using DaysInYear_cases[of y] by (auto simp: DayFromYear_next)

lemma DayFromYear_mono: "y \<le> z \<Longrightarrow> DayFromYear y \<le> DayFromYear z"
proof (induction z rule: int_ge_induct)
  case base
  show ?case by simp
next
  case (step i)
  then show ?case using DayFromYear_less_next[of i] by simp
qed

lemma DayFromYear_strict_mono: "y < z \<Longrightarrow> DayFromYear y < DayFromYear z"
  using DayFromYear_mono[of "y + 1" z] DayFromYear_less_next[of y] by simp

lemma div_bounds:
  fixes x k :: int
  assumes "0 < k"
  shows "k * (x div k) \<le> x" and "x - (k - 1) \<le> k * (x div k)"
proof -
  have "x = k * (x div k) + x mod k" by simp
  moreover have "0 \<le> x mod k" "x mod k < k" using assms by simp_all
  ultimately show "k * (x div k) \<le> x" and "x - (k - 1) \<le> k * (x div k)"
    by linarith+
qed

lemma DayFromYear_mean:
  "400 * DayFromYear y \<le> 146097 * (y - 1970) + 589"
  "146097 * (y - 1970) - 506 \<le> 400 * DayFromYear y"
proof -
  define a b c where "a = (y - 1969) div 4" and "b = (y - 1901) div 100" and "c = (y - 1601) div 400"
  have a: "4 * a \<le> y - 1969" "y - 1969 - 3 \<le> 4 * a"
    using div_bounds[of 4 "y - 1969"] by (simp_all add: a_def)
  have b: "100 * b \<le> y - 1901" "y - 1901 - 99 \<le> 100 * b"
    using div_bounds[of 100 "y - 1901"] by (simp_all add: b_def)
  have c: "400 * c \<le> y - 1601" "y - 1601 - 399 \<le> 400 * c"
    using div_bounds[of 400 "y - 1601"] by (simp_all add: c_def)
  have D: "DayFromYear y = 365 * (y - 1970) + a - b + c"
    by (simp add: DayFromYear_def a_def b_def c_def)
  have a1: "400 * a \<le> 100 * y - 196900" and a2: "100 * y - 197200 \<le> 400 * a"
    using a by simp_all
  have b1: "400 * b \<le> 4 * y - 7604" and b2: "4 * y - 8000 \<le> 400 * b"
    using b by simp_all
  have E: "400 * DayFromYear y = 146000 * y - 287620000 + 400 * a - 400 * b + 400 * c"
    unfolding D by simp
  show "400 * DayFromYear y \<le> 146097 * (y - 1970) + 589"
    unfolding E using a1 b2 c by simp
  show "146097 * (y - 1970) - 506 \<le> 400 * DayFromYear y"
    unfolding E using a2 b1 c by simp
qed


lemma YearFromDay_bounds:
  "DayFromYear (YearFromDay d) \<le> d \<and> d < DayFromYear (YearFromDay d + 1)"
proof -
  define k where "k = (400 * d) div 146097"
  define c where "c = 1970 + k"
  have k1: "146097 * k \<le> 400 * d" and k2: "400 * d - 146096 \<le> 146097 * k"
    using div_bounds[of 146097 "400 * d"] by (simp_all add: k_def)
  have Y: "YearFromDay d =
      (if d < DayFromYear c then c - 1 else if DayFromYear (c + 1) \<le> d then c + 1 else c)"
    by (simp add: YearFromDay_def c_def k_def)
  have lo: "DayFromYear (c - 1) \<le> d"
  proof -
    have "400 * DayFromYear (c - 1) \<le> 146097 * (c - 1 - 1970) + 589"
      by (rule DayFromYear_mean)
    then have "400 * DayFromYear (c - 1) \<le> 400 * d" using k1 by (simp add: c_def)
    then show ?thesis by simp
  qed
  have hi: "d < DayFromYear (c + 2)"
  proof -
    have "146097 * (c + 2 - 1970) - 506 \<le> 400 * DayFromYear (c + 2)"
      by (rule DayFromYear_mean)
    then have "400 * d < 400 * DayFromYear (c + 2)" using k2 by (simp add: c_def)
    then show ?thesis by simp
  qed
  show ?thesis
  proof (cases "d < DayFromYear c")
    case True
    then show ?thesis using lo by (simp add: Y)
  next
    case False
    then show ?thesis using hi by (simp add: Y add.commute)
  qed
qed

lemma YearFromDay_unique:
  assumes "DayFromYear y \<le> d" and "d < DayFromYear (y + 1)"
  shows "YearFromDay d = y"
proof (rule ccontr)
  assume ne: "YearFromDay d \<noteq> y"
  have b: "DayFromYear (YearFromDay d) \<le> d" "d < DayFromYear (YearFromDay d + 1)"
    using YearFromDay_bounds[of d] by simp_all
  show False
  proof (cases "YearFromDay d < y")
    case True
    then have "DayFromYear (YearFromDay d + 1) \<le> DayFromYear y"
      by (intro DayFromYear_mono) simp
    then show False using b assms by simp
  next
    case False
    then have "DayFromYear (y + 1) \<le> DayFromYear (YearFromDay d)"
      using ne by (intro DayFromYear_mono) simp
    then show False using b assms by simp
  qed
qed


text \<open>The time value that \<open>Date.UTC\<close> gives is a whole number of seconds.\<close>

lemma Date_UTC_seconds: "Date_UTC year month day mod 1000 = 0"
proof -
  have "\<exists>n. Date_UTC year month day = n * 86400000"
    by (simp add: Date_UTC_def MakeDate_def msPerDay_def Let_def)
  then obtain n where "Date_UTC year month day = 1000 * (n * 86400)" by auto
  then show ?thesis by simp
qed

section \<open>Properties of \<open>processData\<close>\<close>

lemma findIndex_lower: "- 1 \<le> findIndex P xs"
  by (induction xs) (auto simp: Let_def)

lemma findIndex_upper: "findIndex P xs < int (length xs)"
  by (induction xs) (auto simp: Let_def)

lemma findIndex_none_iff: "findIndex P xs = - 1 \<longleftrightarrow> (\<forall>x \<in> set xs. \<not> P x)"
proof (induction xs)
  case Nil
  show ?case by simp
next
  case (Cons x xs)
  show ?case using Cons.IH findIndex_lower[of P xs] by (auto simp: Let_def)
qed

lemma findIndex_found:
  assumes "findIndex P xs \<noteq> - 1"
  shows "nat (findIndex P xs) < length xs"
    and "P (xs ! nat (findIndex P xs))"
    and "\<forall>j < nat (findIndex P xs). \<not> P (xs ! j)"
  using assms
proof (induction xs)
  case Nil
  { case 1 then show ?case by simp }
  { case 2 then show ?case by simp }
  { case 3 then show ?case by simp }
next
  case (Cons x xs)
  { case 1 then show ?case using findIndex_upper[of P "x # xs"] findIndex_lower[of P "x # xs"] by simp }
  { case 2
    show ?case
    proof (cases "P x")
      case True then show ?thesis by simp
    next
      case False
      with 2 have ne: "findIndex P xs \<noteq> - 1" by (auto simp: Let_def split: if_splits)
      have "0 \<le> findIndex P xs" using ne findIndex_lower[of P xs] by simp
      then have "nat (findIndex P xs + 1) = Suc (nat (findIndex P xs))" by simp
      then show ?thesis using False ne Cons.IH(2)[OF ne] by (simp add: Let_def)
    qed }
  { case 3
    show ?case
    proof (cases "P x")
      case True then show ?thesis by simp
    next
      case False
      with 3 have ne: "findIndex P xs \<noteq> - 1" by (auto simp: Let_def split: if_splits)
      have "0 \<le> findIndex P xs" using ne findIndex_lower[of P xs] by simp
      then have e: "nat (findIndex P xs + 1) = Suc (nat (findIndex P xs))" by simp
      show ?thesis
      proof (intro allI impI)
        fix j assume "j < nat (findIndex P (x # xs))"
        then have j: "j < Suc (nat (findIndex P xs))" using False ne e by (simp add: Let_def)
        show "\<not> P ((x # xs) ! j)"
          using j False Cons.IH(3)[OF ne] by (cases j) auto
      qed
    qed }
qed


lemma processData_Nil: "processData [] startDate = None"
  by (simp add: processData_def)

lemma processData_unfold:
  "processData (sd # rest) startDate =
     (let ps = sortPrices (prices sd);
          i = findIndex (\<lambda>p. dateKey p \<ge> getTime startDate) ps
      in if i = - 1 then None
         else if price (ps ! nat i) \<le> 0 then None
         else Some \<lparr>series = map (performancePoint (price (ps ! nat i))) (drop (nat i) ps),
                    finalValue = value (last (map (performancePoint (price (ps ! nat i))) (drop (nat i) ps)))\<rparr>)"
proof -
  define ps where "ps = sortPrices (prices sd)"
  define i where "i = findIndex (\<lambda>p. dateKey p \<ge> getTime startDate) ps"
  have len: "length ps = length (prices sd)" by (simp add: ps_def sortPrices_def)
  have up: "i < int (length ps)" unfolding i_def by (rule findIndex_upper)
  show ?thesis
  proof (cases "i = - 1")
    case True
    then show ?thesis
      by (simp add: processData_def Let_def ps_def[symmetric] i_def[symmetric])
  next
    case False
    then have lt: "nat i < length ps"
      unfolding i_def by (rule findIndex_found(1))
    then have ne: "prices sd \<noteq> []" using len by auto
    have dne: "drop (nat i) ps \<noteq> []" using lt by simp
    have "map (performancePoint x) (drop (nat i) ps) ! (length ps - nat i - 1)
            = last (map (performancePoint x) (drop (nat i) ps))" for x
      using dne lt by (simp add: last_conv_nth)
    then show ?thesis
      using False up lt ne
      by (simp add: processData_def Let_def ps_def[symmetric] i_def[symmetric])
  qed
qed


lemmas calendar_eval =
  dateKey_def getTime_def MakeDate_def MakeDay_def DayFromYear_def
  DaysInYear_def daysBeforeMonth_def msPerDay_def Date_UTC_def

lemma sortPrices_single: "sortPrices [p] = [p]"
  by (simp add: sortPrices_def)

text \<open>
  Claim C6. When the price at the first in-window index of the sorted series is zero or
  negative, \<open>processData\<close> returns null; so whenever it returns a result, the divisor
  \<open>startPrice\<close> of the emission loop is positive. In particular a single point of
  price 0, with the start date on its own day, gives null.
\<close>

theorem processData_base_price_guard:
  "(let ps = sortPrices (prices sd);
        i = findIndex (\<lambda>p. dateKey p \<ge> getTime startDate) ps
    in (i \<noteq> - 1 \<and> price (ps ! nat i) \<le> 0 \<longrightarrow> processData (sd # rest) startDate = None)
       \<and> (\<forall>r. processData (sd # rest) startDate = Some r \<longrightarrow> i \<noteq> - 1 \<and> 0 < price (ps ! nat i)))
   \<and> processData [\<lparr>symbol = s, prices = [\<lparr>date = d0, price = 0\<rparr>], name = n\<rparr>]
         (Date_of_string d0) = None"
proof -
  have "processData [\<lparr>symbol = s, prices = [\<lparr>date = d0, price = 0\<rparr>], name = n\<rparr>]
         (Date_of_string d0) = None"
    by (simp add: processData_unfold sortPrices_single dateKey_def)
  moreover have "let ps = sortPrices (prices sd);
        i = findIndex (\<lambda>p. dateKey p \<ge> getTime startDate) ps
    in (i \<noteq> - 1 \<and> price (ps ! nat i) \<le> 0 \<longrightarrow> processData (sd # rest) startDate = None)
       \<and> (\<forall>r. processData (sd # rest) startDate = Some r \<longrightarrow> i \<noteq> - 1 \<and> 0 < price (ps ! nat i))"
    by (auto simp: processData_unfold Let_def split: if_splits)
  ultimately show ?thesis by blast
qed

theorem processData_base_price_guard_witness:
  "(let sd = \<lparr>symbol = ''AAPL'',
               prices = [\<lparr>date = YMD 2024 1 2, price = - 3\<rparr>, \<lparr>date = YMD 2024 1 3, price = 5\<rparr>],
               name = None\<rparr>;
        startDate = Date_of_string (YMD 2024 1 1);
        ps = sortPrices (prices sd);
        i = findIndex (\<lambda>p. dateKey p \<ge> getTime startDate) ps
    in i \<noteq> - 1 \<and> price (ps ! nat i) \<le> 0 \<and> processData [sd] startDate = None)
   \<and> (let sd = \<lparr>symbol = ''AAPL'',
               prices = [\<lparr>date = YMD 2024 1 2, price = 4\<rparr>, \<lparr>date = YMD 2024 1 3, price = 5\<rparr>],
               name = None\<rparr>;
        startDate = Date_of_string (YMD 2024 1 1);
        ps = sortPrices (prices sd);
        i = findIndex (\<lambda>p. dateKey p \<ge> getTime startDate) ps
    in processData [sd] startDate
         = Some \<lparr>series = [\<lparr>time = 1704153600, value = 100\<rparr>, \<lparr>time = 1704240000, value = 125\<rparr>],
                  finalValue = 125\<rparr>
       \<and> i \<noteq> - 1 \<and> 0 < price (ps ! nat i))"
  using processData_base_price_guard
          [of "\<lparr>symbol = ''AAPL'',
               prices = [\<lparr>date = YMD 2024 1 2, price = - 3\<rparr>, \<lparr>date = YMD 2024 1 3, price = 5\<rparr>],
               name = None\<rparr>" "Date_of_string (YMD 2024 1 1)" "[]"]
        processData_base_price_guard
          [of "\<lparr>symbol = ''AAPL'',
               prices = [\<lparr>date = YMD 2024 1 2, price = 4\<rparr>, \<lparr>date = YMD 2024 1 3, price = 5\<rparr>],
               name = None\<rparr>" "Date_of_string (YMD 2024 1 1)" "[]"]
  by (simp add: processData_def sortPrices_def Let_def calendar_eval performancePoint_def)


lemma sortPrices_sorted_input: "sorted (map dateKey ps) \<Longrightarrow> sortPrices ps = ps"
  unfolding sortPrices_def by (rule sort_key_id_if_sorted)

lemma sortPrices_sorted: "sorted (map dateKey (sortPrices ps))"
  by (simp add: sortPrices_def)

text \<open>
  Claim C1. When \<open>processData\<close> returns a result, its series has exactly one point
  for each point of the date-sorted series from the first in-window index \<open>i\<close> to the
  end, in that order; the point for \<open>ps ! (i + k)\<close> has the value
  \<open>100 * price / basePrice\<close> and the time \<open>dateToUTCTimestamp\<close> of its date. The series
  is not empty, so the fallback 100 of \<open>finalValue\<close> is never taken: \<open>finalValue\<close> is
  the value of the last point. A series already ascending by date is left as it is by the
  sort, so these are the input's own points.
\<close>

theorem processData_emits:
  assumes "processData (sd # rest) startDate = Some r"
  shows "let ps = sortPrices (prices sd);
             i = nat (findIndex (\<lambda>p. dateKey p \<ge> getTime startDate) ps);
             basePrice = price (ps ! i)
         in i < length ps
            \<and> getTime startDate \<le> dateKey (ps ! i)
            \<and> (\<forall>j < i. dateKey (ps ! j) < getTime startDate)
            \<and> length (series r) = length ps - i
            \<and> (\<forall>k < length ps - i.
                  time (series r ! k) = dateToUTCTimestamp (date (ps ! (i + k)))
                  \<and> value (series r ! k) = 100 * price (ps ! (i + k)) / basePrice)
            \<and> series r \<noteq> []
            \<and> finalValue r = value (last (series r))
            \<and> (sorted (map dateKey (prices sd)) \<longrightarrow> ps = prices sd)"
proof -
  define ps where "ps = sortPrices (prices sd)"
  define fi where "fi = findIndex (\<lambda>p. dateKey p \<ge> getTime startDate) ps"
  define i where "i = nat fi"
  from assms have ne: "fi \<noteq> - 1"
    and r: "r = \<lparr>series = map (performancePoint (price (ps ! i))) (drop i ps),
                 finalValue = value (last (map (performancePoint (price (ps ! i))) (drop i ps)))\<rparr>"
    by (auto simp: processData_unfold Let_def ps_def fi_def i_def split: if_splits)
  have lt: "i < length ps"
    using findIndex_found(1)[OF ne[unfolded fi_def]] by (simp add: i_def fi_def)
  have inw: "getTime startDate \<le> dateKey (ps ! i)"
    using findIndex_found(2)[OF ne[unfolded fi_def]] by (simp add: i_def fi_def)
  have before: "\<forall>j < i. dateKey (ps ! j) < getTime startDate"
    using findIndex_found(3)[OF ne[unfolded fi_def]] by (simp add: i_def fi_def not_le)
  have len: "length (series r) = length ps - i" by (simp add: r)
  have pts: "\<forall>k < length ps - i.
                  time (series r ! k) = dateToUTCTimestamp (date (ps ! (i + k)))
                  \<and> value (series r ! k) = 100 * price (ps ! (i + k)) / price (ps ! i)"
    using lt by (simp add: r performancePoint_def)
  have nonempty: "series r \<noteq> []" using lt by (simp add: r)
  have fin: "finalValue r = value (last (series r))" by (simp add: r)
  have srt: "sorted (map dateKey (prices sd)) \<longrightarrow> ps = prices sd"
    by (simp add: ps_def sortPrices_sorted_input)
  show ?thesis
    unfolding Let_def ps_def[symmetric] fi_def[symmetric] i_def[symmetric]
    using lt inw before len pts nonempty fin srt by blast
qed

theorem processData_emits_witness:
  "(let sd = \<lparr>symbol = ''AAPL'',
               prices = [\<lparr>date = YMD 2024 1 1, price = 5\<rparr>, \<lparr>date = YMD 2024 1 2, price = 4\<rparr>,
                         \<lparr>date = YMD 2024 1 3, price = 6\<rparr>],
               name = None\<rparr>;
        startDate = Date_of_string (YMD 2024 1 2);
        r = \<lparr>series = [\<lparr>time = 1704153600, value = 100\<rparr>, \<lparr>time = 1704240000, value = 150\<rparr>],
             finalValue = 150\<rparr>
    in processData [sd] startDate = Some r
       \<and> sorted (map dateKey (prices sd))
       \<and> nat (findIndex (\<lambda>p. dateKey p \<ge> getTime startDate) (sortPrices (prices sd))) = 1
       \<and> sortPrices (prices sd) = prices sd
       \<and> length (series r) = 2
       \<and> finalValue r = value (last (series r)))"
  using processData_emits
          [of "\<lparr>symbol = ''AAPL'',
               prices = [\<lparr>date = YMD 2024 1 1, price = 5\<rparr>, \<lparr>date = YMD 2024 1 2, price = 4\<rparr>,
                         \<lparr>date = YMD 2024 1 3, price = 6\<rparr>],
               name = None\<rparr>" "[]" "Date_of_string (YMD 2024 1 2)"
              "\<lparr>series = [\<lparr>time = 1704153600, value = 100\<rparr>, \<lparr>time = 1704240000, value = 150\<rparr>],
                finalValue = 150\<rparr>"]
  by (simp add: processData_def sortPrices_def Let_def calendar_eval performancePoint_def)


text \<open>
  Claim C2. For a non-empty series and a start date not after its last date, if the
  price at the first point on or after the start date is positive, \<open>processData\<close>
  returns a result whose first point has the value 100.
\<close>

theorem processData_first_value:
  assumes "prices sd \<noteq> []"
    and "getTime startDate \<le> dateKey (last (sortPrices (prices sd)))"
    and "0 < price (sortPrices (prices sd)
                     ! nat (findIndex (\<lambda>p. dateKey p \<ge> getTime startDate) (sortPrices (prices sd))))"
  shows "\<exists>r. processData (sd # rest) startDate = Some r
             \<and> series r \<noteq> [] \<and> value (series r ! 0) = 100"
proof -
  define ps where "ps = sortPrices (prices sd)"
  define fi where "fi = findIndex (\<lambda>p. dateKey p \<ge> getTime startDate) ps"
  have "length ps = length (prices sd)" by (simp add: ps_def sortPrices_def)
  then have "ps \<noteq> []" using assms(1) by auto
  then have "last ps \<in> set ps" by simp
  then have ne: "fi \<noteq> - 1"
    using assms(2) unfolding fi_def findIndex_none_iff ps_def by blast
  have lt: "nat fi < length ps"
    using findIndex_found(1)[OF ne[unfolded fi_def]] by (simp add: fi_def)
  have pos: "0 < price (ps ! nat fi)" using assms(3) by (simp add: ps_def fi_def)
  have "processData (sd # rest) startDate
          = Some \<lparr>series = map (performancePoint (price (ps ! nat fi))) (drop (nat fi) ps),
                   finalValue = value (last (map (performancePoint (price (ps ! nat fi))) (drop (nat fi) ps)))\<rparr>"
    using ne pos by (simp add: processData_unfold Let_def ps_def[symmetric] fi_def[symmetric])
  moreover have "map (performancePoint (price (ps ! nat fi))) (drop (nat fi) ps) \<noteq> []"
    using lt by simp
  moreover have "value (map (performancePoint (price (ps ! nat fi))) (drop (nat fi) ps) ! 0) = 100"
    using lt pos by (simp add: performancePoint_def)
  ultimately show ?thesis by simp
qed

theorem processData_first_value_witness:
  "(let sd = \<lparr>symbol = ''MSFT'',
               prices = [\<lparr>date = YMD 2024 1 1, price = 5\<rparr>, \<lparr>date = YMD 2024 1 2, price = 4\<rparr>,
                         \<lparr>date = YMD 2024 1 3, price = 6\<rparr>],
               name = None\<rparr>;
        startDate = Date_of_string (YMD 2024 1 2)
    in prices sd \<noteq> []
       \<and> getTime startDate \<le> dateKey (last (sortPrices (prices sd)))
       \<and> 0 < price (sortPrices (prices sd)
                     ! nat (findIndex (\<lambda>p. dateKey p \<ge> getTime startDate) (sortPrices (prices sd))))
       \<and> (\<exists>r. processData [sd] startDate = Some r \<and> series r \<noteq> [] \<and> value (series r ! 0) = 100))"
  using processData_first_value
          [of "\<lparr>symbol = ''MSFT'',
               prices = [\<lparr>date = YMD 2024 1 1, price = 5\<rparr>, \<lparr>date = YMD 2024 1 2, price = 4\<rparr>,
                         \<lparr>date = YMD 2024 1 3, price = 6\<rparr>],
               name = None\<rparr>" "Date_of_string (YMD 2024 1 2)" "[]"]
  by (simp add: sortPrices_def Let_def calendar_eval)

text \<open>
  Claim C5, as stated, fails in its "exactly when": a series with a base point whose
  price is 0 also gives null.
\<close>

theorem processData_absent_counterexample:
  "processData [\<lparr>symbol = ''AAPL'', prices = [\<lparr>date = YMD 2024 1 2, price = 0\<rparr>], name = None\<rparr>]
       (Date_of_string (YMD 2024 1 2)) = None
   \<and> getTime (Date_of_string (YMD 2024 1 2)) \<le> dateKey \<lparr>date = YMD 2024 1 2, price = 0\<rparr>"
  by (simp add: processData_def sortPrices_def Let_def calendar_eval)

text \<open>
  Claim C5, amended. \<open>processData\<close> returns null for no data, for an empty price
  series, and for a series with no point on or after the start date; it returns null
  exactly when there is no such point or the price of the first such point is zero or
  negative.
\<close>

theorem processData_absent_iff:
  "processData [] startDate = None
   \<and> processData (sd\<lparr>prices := []\<rparr> # rest) startDate = None
   \<and> ((\<forall>p \<in> set (prices sd). dateKey p < getTime startDate)
        \<longrightarrow> processData (sd # rest) startDate = None)
   \<and> (processData (sd # rest) startDate = None
        \<longleftrightarrow> (\<forall>p \<in> set (prices sd). dateKey p < getTime startDate)
            \<or> (findIndex (\<lambda>p. dateKey p \<ge> getTime startDate) (sortPrices (prices sd)) \<noteq> - 1
                \<and> price (sortPrices (prices sd)
                       ! nat (findIndex (\<lambda>p. dateKey p \<ge> getTime startDate) (sortPrices (prices sd))))
                   \<le> 0))"
proof -
  define ps where "ps = sortPrices (prices sd)"
  define fi where "fi = findIndex (\<lambda>p. dateKey p \<ge> getTime startDate) ps"
  have none: "fi = - 1 \<longleftrightarrow> (\<forall>p \<in> set (prices sd). dateKey p < getTime startDate)"
    unfolding fi_def findIndex_none_iff ps_def sortPrices_def by (auto simp: not_le)
  have main: "processData (sd # rest) startDate = None
        \<longleftrightarrow> fi = - 1 \<or> price (ps ! nat fi) \<le> 0"
    by (simp add: processData_unfold Let_def ps_def[symmetric] fi_def[symmetric])
  have e: "processData (sd\<lparr>prices := []\<rparr> # rest) startDate = None"
    by (simp add: processData_def)
  show ?thesis
    unfolding ps_def[symmetric] fi_def[symmetric]
    using none main e processData_Nil by blast
qed

theorem processData_absent_iff_witness:
  "(let sd = \<lparr>symbol = ''AAPL'',
               prices = [\<lparr>date = YMD 2024 1 2, price = 4\<rparr>, \<lparr>date = YMD 2024 1 3, price = 5\<rparr>],
               name = None\<rparr>;
        startDate = Date_of_string (YMD 2024 1 4)
    in (\<forall>p \<in> set (prices sd). dateKey p < getTime startDate)
       \<and> processData [sd] startDate = None)"
  using processData_absent_iff
          [of "Date_of_string (YMD 2024 1 4)"
              "\<lparr>symbol = ''AAPL'',
               prices = [\<lparr>date = YMD 2024 1 2, price = 4\<rparr>, \<lparr>date = YMD 2024 1 3, price = 5\<rparr>],
               name = None\<rparr>" "[]"]
  by (simp add: Let_def calendar_eval)


section \<open>Properties of \<open>getTimeframeStartDate\<close>\<close>

lemma Day_MakeDate: "0 \<le> tod \<Longrightarrow> tod < msPerDay \<Longrightarrow> Day (MakeDate d tod) = d"
  unfolding Day_def MakeDate_def
  by (rule int_div_pos_eq[where r = tod]) (simp_all add: mult.commute)

lemma TimeWithinDay_MakeDate:
  "0 \<le> tod \<Longrightarrow> tod < msPerDay \<Longrightarrow> TimeWithinDay (MakeDate d tod) = tod"
  unfolding TimeWithinDay_def MakeDate_def
  by (rule int_mod_pos_eq[where q = d]) (simp_all add: mult.commute)

lemma TimeWithinDay_range: "0 \<le> TimeWithinDay t" "TimeWithinDay t < msPerDay"
  by (simp_all add: TimeWithinDay_def msPerDay_def)

lemma LocalTime_UTC: "LocalTime tza (UTC tza t) = t"
  by (simp add: LocalTime_def UTC_def)

lemma DayWithinYear_range: "0 \<le> DayWithinYear t" "DayWithinYear t < DaysInYear (YearFromTime t)"
  using YearFromDay_bounds[of "Day t"] DayFromYear_next[of "YearFromTime t"]
  by (simp_all add: DayWithinYear_def YearFromTime_def)

lemma MonthFromTime_range: "0 \<le> MonthFromTime t" "MonthFromTime t \<le> 11"
  by (simp_all add: MonthFromTime_def Let_def)

lemma MakeDay_fields: "MakeDay (YearFromTime t) (MonthFromTime t) (DateFromTime t) = Day t"
proof -
  have d: "MonthFromTime t div 12 = 0" and m: "MonthFromTime t mod 12 = MonthFromTime t"
    using MonthFromTime_range[of t] by simp_all
  show ?thesis
    unfolding MakeDay_def Let_def d m DateFromTime_def
    by (simp add: InLeapYear_def DayWithinYear_def)
qed

lemma MakeDay_date_shift: "MakeDay y m (d + k) = MakeDay y m d + k"
  by (simp add: MakeDay_def Let_def)


lemma setFullYear_local:
  "LocalTime tza (setFullYear tza d y) =
     MakeDate (MakeDay y (MonthFromTime (LocalTime tza d)) (DateFromTime (LocalTime tza d)))
              (TimeWithinDay (LocalTime tza d))"
  by (simp add: setFullYear_def Let_def LocalTime_UTC)

lemma setDate_previous_day:
  "setDate tza d (getDate tza d - 1) =
     UTC tza (MakeDate (Day (LocalTime tza d) - 1) (TimeWithinDay (LocalTime tza d)))"
proof -
  have "MakeDay (YearFromTime t) (MonthFromTime t) (DateFromTime t - 1) = Day t - 1" for t
    using MakeDay_date_shift[of "YearFromTime t" "MonthFromTime t" "DateFromTime t" "- 1"]
    by (simp add: MakeDay_fields)
  then show ?thesis by (simp add: setDate_def getDate_def Let_def)
qed

lemma years_then_day:
  "setDate tza (setFullYear tza endDate (getFullYear tza endDate - n))
       (getDate tza (setFullYear tza endDate (getFullYear tza endDate - n)) - 1)
     = yearsBackMinusDay tza n endDate"
proof -
  define t where "t = LocalTime tza endDate"
  define r where "r = setFullYear tza endDate (getFullYear tza endDate - n)"
  have l: "LocalTime tza r
        = MakeDate (MakeDay (YearFromTime t - n) (MonthFromTime t) (DateFromTime t)) (TimeWithinDay t)"
    unfolding r_def t_def by (simp add: setFullYear_local getFullYear_def)
  have "setDate tza r (getDate tza r - 1)
       = UTC tza (MakeDate (Day (LocalTime tza r) - 1) (TimeWithinDay (LocalTime tza r)))"
    by (rule setDate_previous_day)
  also have "\<dots> = UTC tza (MakeDate (MakeDay (YearFromTime t - n) (MonthFromTime t) (DateFromTime t) - 1)
                           (TimeWithinDay t))"
    unfolding l by (simp add: Day_MakeDate TimeWithinDay_MakeDate TimeWithinDay_range)
  finally show ?thesis by (simp add: r_def t_def yearsBackMinusDay_def Let_def)
qed

lemma getTimeframeStartDate_years:
  "option \<noteq> ''all'' \<Longrightarrow>
     getTimeframeStartDate tza endDate option = yearsBackMinusDay tza (yearsOfToken option) endDate"
  by (simp add: getTimeframeStartDate_def Let_def years_then_day yearsOfToken_def)

lemma Day_19522:
  assumes "Day t = 19522"
  shows "isoDate t = YMD 2023 6 14"
proof -
  have y0: "YearFromDay 19522 = 2023" by code_simp
  have y: "YearFromTime t = 2023" by (simp add: YearFromTime_def assms y0)
  have f: "DayFromYear 2023 = 19358" by code_simp
  have l: "InLeapYear t = 0" by (simp add: InLeapYear_def y DaysInYear_def)
  have w: "DayWithinYear t = 164" by (simp add: DayWithinYear_def y assms f)
  have m: "MonthFromTime t = 5" by (simp add: MonthFromTime_def w l)
  have d: "DateFromTime t = 14" by (simp add: DateFromTime_def w l m daysBeforeMonth_def)
  show ?thesis by (simp add: isoDate_def y m d)
qed


lemma MakeDay_2023_5_15: "MakeDay 2023 5 15 = 19523"
  by code_simp

text \<open>
  Claim C3. For every token other than \<open>all\<close>, \<open>getTimeframeStartDate\<close> is
  \<open>yearsBackMinusDay\<close>: 1, 3 or 5 calendar years back for \<open>1y\<close>, \<open>3y\<close>, \<open>5y\<close>, then
  one day back. A token that is none of the four gives what \<open>1y\<close> gives. When the end
  date is a moment of 2024-06-15 (local time), the result is a moment of 2023-06-14.
\<close>

theorem getTimeframeStartDate_subtracts_years:
  "(option \<noteq> ''all'' \<longrightarrow>
      getTimeframeStartDate tza endDate option
        = yearsBackMinusDay tza (yearsOfToken option) endDate)
   \<and> yearsOfToken ''1y'' = 1 \<and> yearsOfToken ''3y'' = 3 \<and> yearsOfToken ''5y'' = 5
   \<and> (option \<notin> {''1y'', ''3y'', ''5y'', ''all''} \<longrightarrow>
        getTimeframeStartDate tza endDate option = getTimeframeStartDate tza endDate ''1y'')
   \<and> (isoDate (LocalTime tza endDate) = YMD 2024 6 15 \<longrightarrow>
        isoDate (LocalTime tza (getTimeframeStartDate tza endDate ''1y'')) = YMD 2023 6 14)"
proof -
  have a: "option \<noteq> ''all'' \<longrightarrow>
      getTimeframeStartDate tza endDate option
        = yearsBackMinusDay tza (yearsOfToken option) endDate"
    by (simp add: getTimeframeStartDate_years)
  have b: "yearsOfToken ''1y'' = 1 \<and> yearsOfToken ''3y'' = 3 \<and> yearsOfToken ''5y'' = 5"
    by (simp add: yearsOfToken_def)
  have c: "option \<notin> {''1y'', ''3y'', ''5y'', ''all''} \<longrightarrow>
        getTimeframeStartDate tza endDate option = getTimeframeStartDate tza endDate ''1y''"
    by (simp add: getTimeframeStartDate_def)
  have d: "isoDate (LocalTime tza (getTimeframeStartDate tza endDate ''1y'')) = YMD 2023 6 14"
    if h: "isoDate (LocalTime tza endDate) = YMD 2024 6 15"
  proof -
    define t where "t = LocalTime tza endDate"
    have f: "YearFromTime t = 2024" "MonthFromTime t = 5" "DateFromTime t = 15"
      using h by (simp_all add: isoDate_def t_def)
    have "LocalTime tza (getTimeframeStartDate tza endDate ''1y'')
            = MakeDate (MakeDay 2023 5 15 - 1) (TimeWithinDay t)"
      by (simp add: getTimeframeStartDate_years yearsOfToken_def yearsBackMinusDay_def Let_def
            LocalTime_UTC t_def[symmetric] f)
    then have "Day (LocalTime tza (getTimeframeStartDate tza endDate ''1y'')) = 19522"
      by (simp add: MakeDay_2023_5_15 Day_MakeDate TimeWithinDay_range)
    then show ?thesis by (rule Day_19522)
  qed
  show ?thesis using a b c d by blast
qed

theorem getTimeframeStartDate_subtracts_years_witness:
  "''3y'' \<noteq> ''all''
   \<and> getTimeframeStartDate 0 1718452800000 ''3y'' = yearsBackMinusDay 0 3 1718452800000
   \<and> ''2y'' \<notin> {''1y'', ''3y'', ''5y'', ''all''}
   \<and> getTimeframeStartDate (- 14400000) 1718452800000 ''2y''
       = getTimeframeStartDate (- 14400000) 1718452800000 ''1y''
   \<and> isoDate (LocalTime 3600000 1718452800000) = YMD 2024 6 15
   \<and> isoDate (LocalTime 3600000 (getTimeframeStartDate 3600000 1718452800000 ''1y'')) = YMD 2023 6 14"
proof -
  have h: "isoDate (LocalTime 3600000 1718452800000) = YMD 2024 6 15"
    by code_simp
  have a: "getTimeframeStartDate 0 1718452800000 ''3y'' = yearsBackMinusDay 0 3 1718452800000"
    using getTimeframeStartDate_subtracts_years [of "''3y''" 0 1718452800000]
    by (simp add: yearsOfToken_def)
  have b: "getTimeframeStartDate (- 14400000) 1718452800000 ''2y''
       = getTimeframeStartDate (- 14400000) 1718452800000 ''1y''"
    using getTimeframeStartDate_subtracts_years [of "''2y''" "- 14400000" 1718452800000]
    by simp
  have c: "isoDate (LocalTime 3600000 (getTimeframeStartDate 3600000 1718452800000 ''1y''))
       = YMD 2023 6 14"
    using getTimeframeStartDate_subtracts_years [of "''1y''" 3600000 1718452800000] h
    by blast
  show ?thesis using a b c h by simp
qed

text \<open>
  Claim C4, as stated, fails: the date returned for \<open>all\<close> is not before 1900-01-01.
\<close>

theorem getTimeframeStartDate_all_counterexample:
  "\<not> getTimeframeStartDate 0 1718452800000 ''all'' < Date_UTC 1900 0 1"
  by (simp add: getTimeframeStartDate_def calendar_eval)

text \<open>
  Claim C4, amended. For every end date, the token \<open>all\<close> gives the start of the
  Unix epoch, 1970-01-01T00:00:00Z (time value 0), with no one-day adjustment; this
  is after 1900-01-01.
\<close>

theorem getTimeframeStartDate_all:
  "getTimeframeStartDate tza endDate ''all'' = 0
   \<and> Date_UTC 1970 0 1 = 0
   \<and> isoDate (getTimeframeStartDate tza endDate ''all'') = YMD 1970 1 1
   \<and> Date_UTC 1900 0 1 < getTimeframeStartDate tza endDate ''all''"
proof -
  have "getTimeframeStartDate tza endDate ''all'' = 0"
    by (simp add: getTimeframeStartDate_def)
  moreover have "Date_UTC 1970 0 1 = 0" by code_simp
  moreover have "isoDate 0 = YMD 1970 1 1" by code_simp
  moreover have "Date_UTC 1900 0 1 < 0" by code_simp
  ultimately show ?thesis by simp
qed


text \<open>
  The end date 2024-02-29: one year back there is no such day, the date carries into
  2023-03-01, and the day before it is 2023-02-28.
\<close>

lemma leap_day_example:
  "isoDate (getTimeframeStartDate 0 1709208000000 ''1y'') = YMD 2023 2 28
   \<and> isoDate 1709208000000 = YMD 2024 2 29"
  by code_simp

section \<open>Order of the emitted times\<close>

lemma month_cases:
  "1 \<le> m \<Longrightarrow> m \<le> 12 \<Longrightarrow>
     m = 1 \<or> m = 2 \<or> m = 3 \<or> m = 4 \<or> m = 5 \<or> m = 6 \<or> m = 7 \<or> m = 8 \<or> m = 9
     \<or> m = 10 \<or> m = 11 \<or> m = (12 :: int)"
  by arith

lemma daysBeforeMonth_mono:
  assumes "1 \<le> m" "m \<le> 12" "0 \<le> l" "l \<le> 1"
  shows "0 \<le> daysBeforeMonth l (m - 1)"
    and "daysBeforeMonth l (m - 1) < daysBeforeMonth l m"
    and "daysBeforeMonth l m \<le> 365 + l"
  using month_cases[OF assms(1,2)] assms(3,4)
  by (auto simp: daysBeforeMonth_def)

lemma month_of_day_within_year:
  assumes "1 \<le> m" "m \<le> 12" "0 \<le> l" "l \<le> 1"
    and "daysBeforeMonth l (m - 1) \<le> w" "w < daysBeforeMonth l m"
  shows "(if w < 31 then 0
         else if w < 59 + l then 1
         else if w < 90 + l then 2
         else if w < 120 + l then 3
         else if w < 151 + l then 4
         else if w < 181 + l then 5
         else if w < 212 + l then 6
         else if w < 243 + l then 7
         else if w < 273 + l then 8
         else if w < 304 + l then 9
         else if w < 334 + l then 10
         else 11) = m - 1"
  using month_cases[OF assms(1,2)] assms(3-6)
  by (elim disjE) (simp_all add: daysBeforeMonth_def)


text \<open>
  Parsing a calendar date and printing it again gives the date back; so distinct
  calendar dates have distinct time values.
\<close>

lemma isoDate_Date_of_string:
  assumes "isCalendarDate ds"
  shows "isoDate (Date_of_string ds) = ds"
proof (cases ds)
  case (YMD y m d)
  define l :: int where "l = (if DaysInYear y = 366 then 1 else 0)"
  define w where "w = daysBeforeMonth l (m - 1) + d - 1"
  define t where "t = Date_of_string ds"
  have m: "1 \<le> m" "m \<le> 12" and d: "1 \<le> d" "d \<le> daysBeforeMonth l m - daysBeforeMonth l (m - 1)"
    using assms by (simp_all add: YMD DaysInMonth_def l_def Let_def)
  have l: "0 \<le> l" "l \<le> 1" by (simp_all add: l_def)
  have len: "DaysInYear y = 365 + l"
    using DaysInYear_cases[of y] by (auto simp: l_def)
  have mm: "(m - 1) div 12 = 0" "(m - 1) mod 12 = m - 1" using m by simp_all
  have N: "MakeDay y (m - 1) d = DayFromYear y + w"
    by (simp add: MakeDay_def Let_def mm l_def w_def)
  have day: "Day t = DayFromYear y + w"
    by (simp add: t_def YMD N Day_MakeDate msPerDay_def)
  have w0: "0 \<le> w" and w1: "w < DaysInYear y"
    and wl: "daysBeforeMonth l (m - 1) \<le> w" and wu: "w < daysBeforeMonth l m"
    using daysBeforeMonth_mono[OF m l] d by (simp_all add: w_def len)
  have "YearFromDay (Day t) = y"
    by (rule YearFromDay_unique) (use w0 w1 in \<open>simp_all add: day DayFromYear_next\<close>)
  then have y: "YearFromTime t = y" by (simp add: YearFromTime_def)
  have lp: "InLeapYear t = l" by (simp add: InLeapYear_def y l_def)
  have dw: "DayWithinYear t = w" by (simp add: DayWithinYear_def y day)
  have mo: "MonthFromTime t = m - 1"
    unfolding MonthFromTime_def Let_def dw lp
    by (rule month_of_day_within_year[OF m l wl wu])
  have da: "DateFromTime t = d"
    by (simp add: DateFromTime_def dw lp mo w_def)
  show ?thesis
    unfolding t_def[symmetric] by (simp add: isoDate_def y mo da YMD)
qed

lemma Date_of_string_inj:
  "isCalendarDate a \<Longrightarrow> isCalendarDate b \<Longrightarrow> Date_of_string a = Date_of_string b \<Longrightarrow> a = b"
  using isoDate_Date_of_string by metis

lemma dateKey_seconds:
  assumes "100 \<le> yyyy ds"
  shows "Date_of_string ds = 1000 * dateToUTCTimestamp ds"
proof (cases ds)
  case (YMD y m d)
  then have "100 \<le> y" using assms by simp
  then show ?thesis
    by (auto simp: YMD Date_UTC_def Let_def MakeDate_def msPerDay_def)
qed


text \<open>
  For the years 0000 to 0099 \<open>Date.UTC\<close> adds 1900, so there the two conversions of a
  date differ.
\<close>

lemma dateToUTCTimestamp_two_digit_year:
  "dateToUTCTimestamp (YMD 99 12 31) = 946598400
   \<and> Date_of_string (YMD 99 12 31) = - 59011545600000"
  by code_simp

text \<open>
  A calendar date at or after the Unix epoch is of the year 1970 or later.
\<close>

lemma calendar_year_from_epoch:
  assumes "isCalendarDate ds" and "0 \<le> Date_of_string ds"
  shows "1970 \<le> yyyy ds"
proof (rule ccontr)
  assume "\<not> 1970 \<le> yyyy ds"
  then have "yyyy ds + 1 \<le> 1970" by simp
  then have "DayFromYear (yyyy ds + 1) \<le> DayFromYear 1970" by (rule DayFromYear_mono)
  then have le: "DayFromYear (yyyy ds + 1) \<le> 0" by (simp add: DayFromYear_def)
  have "isoDate (Date_of_string ds) = ds" using assms(1) by (rule isoDate_Date_of_string)
  then have "yyyy (isoDate (Date_of_string ds)) = yyyy ds" by simp
  then have y: "YearFromDay (Day (Date_of_string ds)) = yyyy ds"
    by (simp add: isoDate_def YearFromTime_def)
  have "Day (Date_of_string ds) < DayFromYear (yyyy ds + 1)"
    using YearFromDay_bounds[of "Day (Date_of_string ds)"] by (simp add: y)
  moreover have "0 \<le> Day (Date_of_string ds)"
    using assms(2) by (simp add: Day_def msPerDay_def pos_imp_zdiv_nonneg_iff)
  ultimately show False using le by simp
qed

text \<open>
  Claim C10. The comparator calls \<open>processData\<close> with the start date that
  \<open>getTimeframeStartDate\<close> gives for the present moment, which is at or after the Unix
  epoch (time value 0). For every such start date and every series whose dates are
  pairwise distinct calendar dates, the times of the series returned by \<open>processData\<close>
  are strictly ascending: the series is sorted by the parsed dates, the points emitted
  are those on or after the start date, and for them \<open>dateToUTCTimestamp\<close> is the
  parsed date in seconds.
\<close>

theorem processData_times_ascending:
  assumes "\<forall>p \<in> set (prices sd). isCalendarDate (date p)"
    and "distinct (map date (prices sd))"
    and "0 \<le> getTime startDate"
    and "processData (sd # rest) startDate = Some r"
  shows "sorted_wrt (<) (map time (series r))"
proof -
  define ps where "ps = sortPrices (prices sd)"
  define fi where "fi = findIndex (\<lambda>p. dateKey p \<ge> getTime startDate) ps"
  define i where "i = nat fi"
  have set_ps: "set ps = set (prices sd)" by (simp add: ps_def sortPrices_def)
  from assms(4) have ne: "fi \<noteq> - 1"
    and r: "series r = map (performancePoint (price (ps ! i))) (drop i ps)"
    by (auto simp: processData_unfold Let_def ps_def fi_def i_def split: if_splits)
  have lt: "i < length ps"
    using findIndex_found(1)[OF ne[unfolded fi_def]] by (simp add: i_def fi_def)
  have base: "getTime startDate \<le> dateKey (ps ! i)"
    using findIndex_found(2)[OF ne[unfolded fi_def]] by (simp add: i_def fi_def)
  have srt: "sorted (map dateKey ps)"
    unfolding ps_def by (rule sortPrices_sorted)
  have times: "map time (series r) = map (\<lambda>p. dateToUTCTimestamp (date p)) (drop i ps)"
    by (simp add: r performancePoint_def)
  have window: "getTime startDate \<le> dateKey p" if "p \<in> set (drop i ps)" for p
  proof -
    from that obtain k where k: "k < length ps - i" "p = ps ! (i + k)"
      by (auto simp: in_set_conv_nth)
    have "map dateKey ps ! i \<le> map dateKey ps ! (i + k)"
      using srt k(1) by (intro sorted_nth_mono) simp_all
    then show ?thesis using base k lt by simp
  qed
  have key: "dateKey p = 1000 * dateToUTCTimestamp (date p)" if "p \<in> set (drop i ps)" for p
  proof -
    have "p \<in> set (prices sd)" using that set_ps by (auto dest: in_set_dropD)
    then have cal: "isCalendarDate (date p)" using assms(1) by simp
    have "0 \<le> Date_of_string (date p)"
      using window[OF that] assms(3) by (simp add: dateKey_def getTime_def)
    then have "100 \<le> yyyy (date p)"
      using calendar_year_from_epoch[OF cal] by simp
    then show ?thesis by (simp add: dateKey_def getTime_def dateKey_seconds)
  qed
  have "distinct (map date ps)"
    using assms(2) by (simp add: distinct_map ps_def sortPrices_def)
  moreover have "inj_on Date_of_string (date ` set ps)"
    using assms(1) by (auto simp: inj_on_def set_ps intro: Date_of_string_inj)
  ultimately have "distinct (map Date_of_string (map date ps))"
    by (simp only: distinct_map[of Date_of_string] set_map)
  moreover have "dateKey = (\<lambda>p. Date_of_string (date p))"
    by (simp add: fun_eq_iff dateKey_def getTime_def)
  ultimately have "distinct (map dateKey ps)"
    by (simp add: comp_def)
  then have "sorted_wrt (<) (map dateKey ps)"
    using srt by (simp add: strict_sorted_iff)
  then have "sorted_wrt (\<lambda>p q. dateKey p < dateKey q) ps"
    by (simp add: sorted_wrt_map)
  then have "sorted_wrt (\<lambda>p q. dateKey p < dateKey q) (drop i ps)"
    by (rule sorted_wrt_drop)
  then have "sorted_wrt (\<lambda>p q. dateToUTCTimestamp (date p) < dateToUTCTimestamp (date q)) (drop i ps)"
    by (rule sorted_wrt_mono_rel[rotated]) (simp add: key)
  then show ?thesis
    by (simp add: times sorted_wrt_map)
qed

theorem processData_times_ascending_witness:
  "(let sd = \<lparr>symbol = ''AAPL'',
               prices = [\<lparr>date = YMD 2024 3 1, price = 6\<rparr>, \<lparr>date = YMD 2024 2 29, price = 4\<rparr>,
                         \<lparr>date = YMD 2023 12 31, price = 5\<rparr>],
               name = None\<rparr>;
        startDate = Date_of_string (YMD 2024 1 1);
        r = \<lparr>series = [\<lparr>time = 1709164800, value = 100\<rparr>, \<lparr>time = 1709251200, value = 150\<rparr>],
             finalValue = 150\<rparr>
    in (\<forall>p \<in> set (prices sd). isCalendarDate (date p))
       \<and> distinct (map date (prices sd))
       \<and> 0 \<le> getTime startDate
       \<and> processData [sd] startDate = Some r
       \<and> sorted_wrt (<) (map time (series r)))"
  using processData_times_ascending
          [of "\<lparr>symbol = ''AAPL'',
               prices = [\<lparr>date = YMD 2024 3 1, price = 6\<rparr>, \<lparr>date = YMD 2024 2 29, price = 4\<rparr>,
                         \<lparr>date = YMD 2023 12 31, price = 5\<rparr>],
               name = None\<rparr>" "Date_of_string (YMD 2024 1 1)" "[]"
              "\<lparr>series = [\<lparr>time = 1709164800, value = 100\<rparr>, \<lparr>time = 1709251200, value = 150\<rparr>],
                finalValue = 150\<rparr>"]
  by (simp add: processData_def sortPrices_def Let_def calendar_eval performancePoint_def DaysInMonth_def)


section \<open>Properties of \<open>fetchComparisonData\<close>\<close>

lemma fetchComparisonData_thrown:
  assumes "t1 \<noteq> []" "t2 \<noteq> []"
    and "fetchTry t1 t2 (getTimeframeStartDate tza now timeframe) fetched = Inl msg"
  shows "comparisonData (fetchComparisonData tza now t1 t2 timeframe fetched s) = None"
    and "error (fetchComparisonData tza now t1 t2 timeframe fetched s)
           = (if msg = [] then ''An unknown error occurred.'' else msg)"
    and "loading (fetchComparisonData tza now t1 t2 timeframe fetched s) = False"
  using assms by (simp_all add: fetchComparisonData_def Let_def)

lemma fetchComparisonData_returned:
  assumes "t1 \<noteq> []" "t2 \<noteq> []"
    and "fetchTry t1 t2 (getTimeframeStartDate tza now timeframe) fetched = Inr res"
  shows "comparisonData (fetchComparisonData tza now t1 t2 timeframe fetched s) = Some res"
    and "error (fetchComparisonData tza now t1 t2 timeframe fetched s) = []"
    and "loading (fetchComparisonData tza now t1 t2 timeframe fetched s) = False"
  using assms by (simp_all add: fetchComparisonData_def Let_def)

lemma fetchTry_Inr_ok:
  assumes "fetchTry t1 t2 startDate fetched = Inr res"
  shows "\<exists>r1 r2 d1 d2. fetched = FetchResolved r1 r2 \<and> ok r1 \<and> ok r2
           \<and> json r1 = JsonValue d1 \<and> json r2 = JsonValue d2
           \<and> processData [d1] startDate \<noteq> None \<and> processData [d2] startDate \<noteq> None"
  using assms
  by (auto simp: fetchTry_def Let_def split: FetchResult.splits if_splits JsonResult.splits)

lemma fetchTry_not_ok:
  assumes "\<not> ok r1 \<or> \<not> ok r2"
  shows "fetchTry t1 t2 startDate (FetchResolved r1 r2)
           = Inl (''Failed to fetch stock data.''
                  @ (if \<not> ok r1 then '' Check ticker '' @ t1 @ ''.'' else [])
                  @ (if \<not> ok r2 then '' Check ticker '' @ t2 @ ''.'' else []))"
  using assms by (simp add: fetchTry_def)

lemma fetchTry_absent:
  assumes "ok r1" "ok r2" "json r1 = JsonValue d1" "json r2 = JsonValue d2"
    and "processData [d1] startDate = None \<or> processData [d2] startDate = None"
  shows "fetchTry t1 t2 startDate (FetchResolved r1 r2)
           = Inl (''Could not process data for comparison.''
                  @ (if processData [d1] startDate = None
                     then '' Check data availability for '' @ t1 @ ''.'' else [])
                  @ (if processData [d2] startDate = None
                     then '' Check data availability for '' @ t2 @ ''.'' else []))"
  using assms by (simp add: fetchTry_def Let_def)

text \<open>
  Claim C7, as stated, fails when a fetch is rejected (a network error): the error thrown
  by \<open>await Promise.all\<close> goes to the \<open>catch\<close> block as it is, and the message shown
  is that error's own message, which names neither ticker.
\<close>

theorem fetchComparisonData_rejected_counterexample:
  "fetchComparisonData 0 1718452800000 ''aapl'' ''msft'' ''1y'' (FetchRejected ''Failed to fetch'')
       \<lparr>comparisonData = None, loading = False, error = []\<rparr>
     = \<lparr>comparisonData = None, loading = False, error = ''Failed to fetch''\<rparr>
   \<and> \<not> sublist ''aapl'' ''Failed to fetch''
   \<and> \<not> sublist ''msft'' ''Failed to fetch''"
proof -
  have "\<not> sublist ''aapl'' ''Failed to fetch''" and "\<not> sublist ''msft'' ''Failed to fetch''"
    by code_simp+
  then show ?thesis
    by (simp add: fetchComparisonData_def fetchTry_def Let_def)
qed

text \<open>
  Claim C7, amended. With both tickers filled in: a comparison result is set only if both
  responses are \<open>ok\<close>; if a response is not \<open>ok\<close>, the error is
  "Failed to fetch stock data." followed by "Check ticker ..." for each failing ticker;
  if a fetch is rejected, the error is the message of the error thrown, or
  "An unknown error occurred." when it has none; if \<open>processData\<close> returns null for a
  series, the error is "Could not process data for comparison." followed by
  "Check data availability for ..." for each such ticker; and whenever the \<open>try\<close> block
  throws, \<open>comparisonData\<close> becomes null and the error message is set.
\<close>

theorem fetchComparisonData_failures:
  assumes "t1 \<noteq> []" and "t2 \<noteq> []"
  shows
    "(let startDate = getTimeframeStartDate tza now timeframe;
          s' = fetchComparisonData tza now t1 t2 timeframe fetched s
      in (comparisonData s' \<noteq> None \<longrightarrow>
            (\<exists>r1 r2. fetched = FetchResolved r1 r2 \<and> ok r1 \<and> ok r2))
         \<and> (\<forall>r1 r2. fetched = FetchResolved r1 r2 \<and> (\<not> ok r1 \<or> \<not> ok r2) \<longrightarrow>
               comparisonData s' = None
               \<and> error s' = ''Failed to fetch stock data.''
                    @ (if \<not> ok r1 then '' Check ticker '' @ t1 @ ''.'' else [])
                    @ (if \<not> ok r2 then '' Check ticker '' @ t2 @ ''.'' else []))
         \<and> (\<forall>r1 r2 d1 d2. fetched = FetchResolved r1 r2 \<and> ok r1 \<and> ok r2
               \<and> json r1 = JsonValue d1 \<and> json r2 = JsonValue d2
               \<and> (processData [d1] startDate = None \<or> processData [d2] startDate = None) \<longrightarrow>
               comparisonData s' = None
               \<and> error s' = ''Could not process data for comparison.''
                    @ (if processData [d1] startDate = None
                       then '' Check data availability for '' @ t1 @ ''.'' else [])
                    @ (if processData [d2] startDate = None
                       then '' Check data availability for '' @ t2 @ ''.'' else []))
         \<and> (\<forall>msg. fetched = FetchRejected msg \<longrightarrow>
               comparisonData s' = None
               \<and> error s' = (if msg = [] then ''An unknown error occurred.'' else msg))
         \<and> (\<forall>msg. fetchTry t1 t2 startDate fetched = Inl msg \<longrightarrow>
               comparisonData s' = None \<and> error s' \<noteq> []
               \<and> error s' = (if msg = [] then ''An unknown error occurred.'' else msg))
         \<and> (error s' \<noteq> [] \<longrightarrow> comparisonData s' = None))"
proof -
  define startDate where "startDate = getTimeframeStartDate tza now timeframe"
  define s' where "s' = fetchComparisonData tza now t1 t2 timeframe fetched s"
  note thrown = fetchComparisonData_thrown[OF assms, of tza now timeframe fetched _ s,
      folded startDate_def s'_def]
  note returned = fetchComparisonData_returned[OF assms, of tza now timeframe fetched _ s,
      folded startDate_def s'_def]
  have a: "comparisonData s' \<noteq> None \<longrightarrow>
            (\<exists>r1 r2. fetched = FetchResolved r1 r2 \<and> ok r1 \<and> ok r2)"
  proof (cases "fetchTry t1 t2 startDate fetched")
    case (Inl msg)
    then show ?thesis using thrown(1) by simp
  next
    case (Inr res)
    then show ?thesis using fetchTry_Inr_ok by blast
  qed
  have b: "comparisonData s' = None
               \<and> error s' = ''Failed to fetch stock data.''
                    @ (if \<not> ok r1 then '' Check ticker '' @ t1 @ ''.'' else [])
                    @ (if \<not> ok r2 then '' Check ticker '' @ t2 @ ''.'' else [])"
    if "fetched = FetchResolved r1 r2 \<and> (\<not> ok r1 \<or> \<not> ok r2)" for r1 r2
  proof -
    have "fetchTry t1 t2 startDate fetched = Inl (''Failed to fetch stock data.''
                  @ (if \<not> ok r1 then '' Check ticker '' @ t1 @ ''.'' else [])
                  @ (if \<not> ok r2 then '' Check ticker '' @ t2 @ ''.'' else []))"
      using that fetchTry_not_ok by simp
    from thrown(1,2)[OF this] show ?thesis by simp
  qed
  have c: "comparisonData s' = None
               \<and> error s' = ''Could not process data for comparison.''
                    @ (if processData [d1] startDate = None
                       then '' Check data availability for '' @ t1 @ ''.'' else [])
                    @ (if processData [d2] startDate = None
                       then '' Check data availability for '' @ t2 @ ''.'' else [])"
    if "fetched = FetchResolved r1 r2 \<and> ok r1 \<and> ok r2
               \<and> json r1 = JsonValue d1 \<and> json r2 = JsonValue d2
               \<and> (processData [d1] startDate = None \<or> processData [d2] startDate = None)"
    for r1 r2 d1 d2
  proof -
    have "fetchTry t1 t2 startDate fetched = Inl (''Could not process data for comparison.''
                  @ (if processData [d1] startDate = None
                     then '' Check data availability for '' @ t1 @ ''.'' else [])
                  @ (if processData [d2] startDate = None
                     then '' Check data availability for '' @ t2 @ ''.'' else []))"
      using that fetchTry_absent by simp
    from thrown(1,2)[OF this] show ?thesis by simp
  qed
  have d: "comparisonData s' = None \<and> error s' \<noteq> []
               \<and> error s' = (if msg = [] then ''An unknown error occurred.'' else msg)"
    if "fetchTry t1 t2 startDate fetched = Inl msg" for msg
    using thrown(1,2)[OF that] by simp
  have f: "comparisonData s' = None
               \<and> error s' = (if msg = [] then ''An unknown error occurred.'' else msg)"
    if "fetched = FetchRejected msg" for msg
  proof -
    have "fetchTry t1 t2 startDate fetched = Inl msg"
      using that by (simp add: fetchTry_def)
    from d[OF this] show ?thesis by simp
  qed
  have e: "error s' \<noteq> [] \<longrightarrow> comparisonData s' = None"
  proof (cases "fetchTry t1 t2 startDate fetched")
    case (Inl msg)
    then show ?thesis using thrown(1) by simp
  next
    case (Inr res)
    then show ?thesis using returned(2) by simp
  qed
  show ?thesis
    unfolding Let_def startDate_def[symmetric] s'_def[symmetric]
    using a b c d e f by blast
qed


theorem fetchComparisonData_failures_witness:
  "(let old = \<lparr>comparisonData =
                  Some \<lparr>ticker1 = ''IBM'', ticker2 = ''GE'', series1 = [], series2 = [],
                        finalValue1 = 100, finalValue2 = 100\<rparr>,
                loading = True, error = []\<rparr>;
        good = \<lparr>ok = True,
                 json = JsonValue \<lparr>symbol = ''MSFT'',
                                   prices = [\<lparr>date = YMD 2024 1 2, price = 4\<rparr>,
                                             \<lparr>date = YMD 2024 1 3, price = 5\<rparr>],
                                   name = None\<rparr>\<rparr>;
        empty = \<lparr>ok = True, json = JsonValue \<lparr>symbol = ''AAPL'', prices = [], name = None\<rparr>\<rparr>;
        notFound = \<lparr>ok = False, json = JsonThrows []\<rparr>
    in ''aapl'' \<noteq> [] \<and> ''msft'' \<noteq> []
       \<and> \<not> ok notFound
       \<and> fetchComparisonData 0 1718452800000 ''aapl'' ''msft'' ''all'' (FetchResolved notFound good) old
           = \<lparr>comparisonData = None, loading = False,
              error = ''Failed to fetch stock data. Check ticker aapl.''\<rparr>
       \<and> ok empty \<and> ok good
       \<and> processData [\<lparr>symbol = ''AAPL'', prices = [], name = None\<rparr>]
             (getTimeframeStartDate 0 1718452800000 ''all'') = None
       \<and> fetchComparisonData 0 1718452800000 ''aapl'' ''msft'' ''all'' (FetchResolved empty good) old
           = \<lparr>comparisonData = None, loading = False,
              error = ''Could not process data for comparison. Check data availability for aapl.''\<rparr>
       \<and> comparisonData
             (fetchComparisonData 0 1718452800000 ''aapl'' ''msft'' ''all'' (FetchResolved good good) old)
           \<noteq> None
       \<and> fetchComparisonData 0 1718452800000 ''aapl'' ''msft'' ''all''
             (FetchRejected ''Failed to fetch'') old
           = \<lparr>comparisonData = None, loading = False, error = ''Failed to fetch''\<rparr>)"
proof -
  define old where "old = \<lparr>comparisonData =
                  Some \<lparr>ticker1 = ''IBM'', ticker2 = ''GE'', series1 = [], series2 = [],
                        finalValue1 = 100, finalValue2 = 100\<rparr>,
                loading = True, error = []\<rparr>"
  define good where "good = \<lparr>ok = True,
                 json = JsonValue \<lparr>symbol = ''MSFT'',
                                   prices = [\<lparr>date = YMD 2024 1 2, price = 4\<rparr>,
                                             \<lparr>date = YMD 2024 1 3, price = 5\<rparr>],
                                   name = None\<rparr>\<rparr>"
  define empty where "empty = \<lparr>ok = True, json = JsonValue \<lparr>symbol = ''AAPL'', prices = [], name = None\<rparr>\<rparr>"
  define notFound where "notFound = \<lparr>ok = False, json = JsonThrows []\<rparr>"
  have start: "getTimeframeStartDate 0 1718452800000 ''all'' = 0"
    by (simp add: getTimeframeStartDate_def)
  have pe: "processData [\<lparr>symbol = ''AAPL'', prices = [], name = None\<rparr>] 0 = None"
    by (simp add: processData_def)
  have pg: "processData [\<lparr>symbol = ''MSFT'',
                                   prices = [\<lparr>date = YMD 2024 1 2, price = 4\<rparr>,
                                             \<lparr>date = YMD 2024 1 3, price = 5\<rparr>],
                                   name = None\<rparr>] 0 \<noteq> None"
    by (simp add: processData_def sortPrices_def Let_def calendar_eval)
  have loading: "loading (fetchComparisonData 0 1718452800000 ''aapl'' ''msft'' ''all'' f old) = False" for f
    by (simp add: fetchComparisonData_def Let_def split: sum.split)
  have a: "fetchComparisonData 0 1718452800000 ''aapl'' ''msft'' ''all'' (FetchResolved notFound good) old
           = \<lparr>comparisonData = None, loading = False,
              error = ''Failed to fetch stock data. Check ticker aapl.''\<rparr>"
    using fetchComparisonData_failures
            [of "''aapl''" "''msft''" 0 1718452800000 "''all''" "FetchResolved notFound good" old]
      loading[of "FetchResolved notFound good"]
    by (simp add: Let_def notFound_def good_def)
  have b: "fetchComparisonData 0 1718452800000 ''aapl'' ''msft'' ''all'' (FetchResolved empty good) old
           = \<lparr>comparisonData = None, loading = False,
              error = ''Could not process data for comparison. Check data availability for aapl.''\<rparr>"
    using fetchComparisonData_failures
            [of "''aapl''" "''msft''" 0 1718452800000 "''all''" "FetchResolved empty good" old]
      loading[of "FetchResolved empty good"] pe pg
    by (simp add: Let_def empty_def good_def start)
  have c: "comparisonData
             (fetchComparisonData 0 1718452800000 ''aapl'' ''msft'' ''all'' (FetchResolved good good) old)
           \<noteq> None"
    using pg by (simp add: fetchComparisonData_def fetchTry_def Let_def good_def start)
  have d: "fetchComparisonData 0 1718452800000 ''aapl'' ''msft'' ''all''
             (FetchRejected ''Failed to fetch'') old
           = \<lparr>comparisonData = None, loading = False, error = ''Failed to fetch''\<rparr>"
    using fetchComparisonData_failures
            [of "''aapl''" "''msft''" 0 1718452800000 "''all''" "FetchRejected ''Failed to fetch''" old]
      loading[of "FetchRejected ''Failed to fetch''"]
    by (simp add: Let_def)
  show ?thesis
    unfolding Let_def old_def[symmetric] good_def[symmetric] empty_def[symmetric] notFound_def[symmetric]
    using a b c d pe start by (simp add: notFound_def empty_def good_def)
qed


section \<open>Properties of the stock route\<close>

text \<open>Rows are rounded to cents; a row with a missing number is dropped.\<close>

lemma toFixed2_examples: "toFixed2 189.987 = 189.99" "toFixed2 (- 0.125) = - 0.13" "toFixed2 12 = 12"
  by (simp_all add: toFixed2_def)

lemma formatPrices_example:
  "formatPrices
     [\<lparr>q_date = 1704205800000, q_adjclose = Some 184.734, q_open = Some 187.15, q_high = Some 188.44,
       q_low = Some 183.885, q_close = Some 185.64\<rparr>,
      \<lparr>q_date = 1704292200000, q_adjclose = None, q_open = None, q_high = None,
       q_low = None, q_close = None\<rparr>]
   = [\<lparr>date = YMD 2024 1 2, price = 184.73, open = 187.15, high = 188.44, low = 183.89,
        close = 185.64\<rparr>]"
proof -
  have d: "isoDate 1704205800000 = YMD 2024 1 2" by code_simp
  show ?thesis
    by (simp add: formatPrices_def formatQuote_def Let_def toFixed2_def d)
qed


lemma toUpperCase_newco: "toUpperCase ''newco'' = ''NEWCO''"
  by code_simp

lemma toUpperCase_Nil_iff: "toUpperCase s = [] \<longleftrightarrow> s = []"
  by (simp add: toUpperCase_def)

text \<open>
  Claim C8, as stated, fails for a symbol that has no data: when the provider returns
  no rows, the route answers with status 200 and an empty \<open>prices\<close> list, not with the
  not-found status.
\<close>

theorem GET_empty_history_counterexample:
  "GET 0 1718452800000 chartNoRows quoteNoInfo (Some ''newco'') (Some ''1y'')
     = \<lparr>status = 200, body = StockDataBody ''NEWCO'' ''NEWCO Inc.'' []\<rparr>"
  by (simp add: GET_def Let_def chartNoRows_def quoteNoInfo_def formatPrices_def toUpperCase_newco)


lemma GET_symbol:
  assumes "sp \<noteq> []"
  shows "GET tza now chart quote (Some sp) timeframeParam =
     (let symb = toUpperCase sp;
          timeframe = (case timeframeParam of None \<Rightarrow> ''2y''
                       | Some tf \<Rightarrow> if tf = [] then ''2y'' else tf)
      in case chart symb (isoDate (routeStartDate tza now timeframe)) (isoDate now) of
           Throws e \<Rightarrow> routeCatch symb e
         | Returns chartResult \<Rightarrow>
             (case quote symb of
                Throws e \<Rightarrow> routeCatch symb e
              | Returns q \<Rightarrow>
                  \<lparr>status = 200,
                   body = StockDataBody symb
                     (let long = (case q of None \<Rightarrow> None | Some i \<Rightarrow> longName i);
                          short = (case q of None \<Rightarrow> None | Some i \<Rightarrow> shortName i)
                      in if long \<noteq> None \<and> long \<noteq> Some [] then the long
                         else if short \<noteq> None \<and> short \<noteq> Some [] then the short
                         else symb @ '' Inc.'')
                     (formatPrices (case chartResult of None \<Rightarrow> [] | Some qs \<Rightarrow> qs))\<rparr>))"
  using assms
  by (simp add: GET_def Let_def toUpperCase_Nil_iff split: Outcome.split)

text \<open>
  Claim C8, amended. For a request with a symbol: when both provider calls return, the
  response is \<open>{symbol, name, prices}\<close> with status 200, also when there are no rows;
  when a provider call throws an error whose message contains "No data found" or whose
  code is "Not Found", the response is \<open>{error}\<close> with status 404; for any other
  error thrown it is \<open>{error}\<close> with status 500.
\<close>

theorem GET_responses:
  assumes "sp \<noteq> []"
  shows
    "(let symb = toUpperCase sp;
          timeframe = (case timeframeParam of None \<Rightarrow> ''2y''
                       | Some tf \<Rightarrow> if tf = [] then ''2y'' else tf);
          c = chart symb (isoDate (routeStartDate tza now timeframe)) (isoDate now);
          r = GET tza now chart quote (Some sp) timeframeParam
      in (\<forall>h q. c = Returns h \<and> quote symb = Returns q \<longrightarrow>
            status r = 200
            \<and> (\<exists>nm. body r = StockDataBody symb nm
                         (formatPrices (case h of None \<Rightarrow> [] | Some qs \<Rightarrow> qs))))
         \<and> (\<forall>e. (c = Throws e \<or> (\<exists>h. c = Returns h) \<and> quote symb = Throws e) \<longrightarrow>
               (if (case message e of None \<Rightarrow> False | Some m \<Rightarrow> sublist ''No data found'' m)
                   \<or> code e = Some ''Not Found''
                then r = \<lparr>status = 404,
                          body = ErrorBody (''Stock symbol '' @ symb
                                            @ '' not found or no data available'')\<rparr>
                else r = \<lparr>status = 500, body = ErrorBody ''Failed to fetch stock data''\<rparr>)))"
proof -
  define symb where "symb = toUpperCase sp"
  define timeframe where "timeframe = (case timeframeParam of None \<Rightarrow> ''2y''
                       | Some tf \<Rightarrow> if tf = [] then ''2y'' else tf)"
  define c where "c = chart symb (isoDate (routeStartDate tza now timeframe)) (isoDate now)"
  define r where "r = GET tza now chart quote (Some sp) timeframeParam"
  note G = GET_symbol[OF assms, of tza now chart quote timeframeParam,
      unfolded Let_def, folded symb_def timeframe_def, folded c_def r_def]
  have a: "status r = 200
            \<and> (\<exists>nm. body r = StockDataBody symb nm
                         (formatPrices (case h of None \<Rightarrow> [] | Some qs \<Rightarrow> qs)))"
    if "c = Returns h \<and> quote symb = Returns q" for h q
    using that by (simp add: G)
  have b: "if (case message e of None \<Rightarrow> False | Some m \<Rightarrow> sublist ''No data found'' m)
                   \<or> code e = Some ''Not Found''
                then r = \<lparr>status = 404,
                          body = ErrorBody (''Stock symbol '' @ symb
                                            @ '' not found or no data available'')\<rparr>
                else r = \<lparr>status = 500, body = ErrorBody ''Failed to fetch stock data''\<rparr>"
    if "c = Throws e \<or> (\<exists>h. c = Returns h) \<and> quote symb = Throws e" for e
    using that by (auto simp: G routeCatch_def)
  show ?thesis
    unfolding Let_def symb_def[symmetric] timeframe_def[symmetric]
    unfolding c_def[symmetric] r_def[symmetric]
    using a b by blast
qed


theorem GET_responses_witness:
  "''aapl'' \<noteq> []
   \<and> GET 0 1718452800000
         (\<lambda>symb period1 period2.
            Throws \<lparr>message = Some ''No data found, symbol may be delisted'', code = None\<rparr>)
         quoteNoInfo (Some ''aapl'') None
       = \<lparr>status = 404,
          body = ErrorBody ''Stock symbol AAPL not found or no data available''\<rparr>
   \<and> GET 0 1718452800000
         (\<lambda>symb period1 period2. Throws \<lparr>message = Some ''socket hang up'', code = None\<rparr>)
         quoteNoInfo (Some ''aapl'') None
       = \<lparr>status = 500, body = ErrorBody ''Failed to fetch stock data''\<rparr>
   \<and> status (GET 0 1718452800000 chartNoRows
                (\<lambda>symb. Returns (Some \<lparr>longName = Some ''Apple Inc.'', shortName = None\<rparr>))
                (Some ''aapl'') (Some ''5y''))
       = 200"
proof -
  have up: "toUpperCase ''aapl'' = ''AAPL''" by code_simp
  have s1: "sublist ''No data found'' ''No data found, symbol may be delisted''" by code_simp
  have s2: "\<not> sublist ''No data found'' ''socket hang up''" by code_simp
  have a: "GET 0 1718452800000
         (\<lambda>symb period1 period2.
            Throws \<lparr>message = Some ''No data found, symbol may be delisted'', code = None\<rparr>)
         quoteNoInfo (Some ''aapl'') None
       = \<lparr>status = 404,
          body = ErrorBody ''Stock symbol AAPL not found or no data available''\<rparr>"
    using GET_responses [of "''aapl''" None
        "\<lambda>symb period1 period2.
            Throws \<lparr>message = Some ''No data found, symbol may be delisted'', code = None\<rparr>"
        0 1718452800000 quoteNoInfo] s1
    by (simp add: Let_def up)
  have b: "GET 0 1718452800000
         (\<lambda>symb period1 period2. Throws \<lparr>message = Some ''socket hang up'', code = None\<rparr>)
         quoteNoInfo (Some ''aapl'') None
       = \<lparr>status = 500, body = ErrorBody ''Failed to fetch stock data''\<rparr>"
    using GET_responses [of "''aapl''" None
        "\<lambda>symb period1 period2. Throws \<lparr>message = Some ''socket hang up'', code = None\<rparr>"
        0 1718452800000 quoteNoInfo] s2
    by (simp add: Let_def up)
  have c: "status (GET 0 1718452800000 chartNoRows
                (\<lambda>symb. Returns (Some \<lparr>longName = Some ''Apple Inc.'', shortName = None\<rparr>))
                (Some ''aapl'') (Some ''5y''))
       = 200"
    using GET_responses [of "''aapl''" "Some ''5y''" chartNoRows 0 1718452800000
        "\<lambda>symb. Returns (Some \<lparr>longName = Some ''Apple Inc.'', shortName = None\<rparr>)"]
    by (simp add: Let_def chartNoRows_def)
  show ?thesis using a b c by simp
qed


section \<open>Properties of the debounce effect\<close>

lemma effectCleanup_timers:
  assumes "timerOwned st"
  shows "timers (effectCleanup st) = []"
proof (cases "debounceTimerRef st")
  case None
  then have "timers st = []" using assms by (cases "timers st") (auto simp: timerOwned_def)
  then show ?thesis by (simp add: effectCleanup_def None)
next
  case (Some i)
  then have "\<forall>tm \<in> set (timers st). timerId tm = i" using assms by (auto simp: timerOwned_def)
  then have "filter (\<lambda>tm. timerId tm \<noteq> i) (timers st) = []" by (simp add: filter_empty_conv)
  then show ?thesis by (simp add: effectCleanup_def Some clearTimeout_def)
qed

lemma effectCleanup_fields:
  "clock (effectCleanup st) = clock st" "calls (effectCleanup st) = calls st"
  "nextTimerId (effectCleanup st) = nextTimerId st"
  by (simp_all add: effectCleanup_def clearTimeout_def split: option.split)

lemma effectBody_no_timers:
  assumes "timers st = []"
  shows "timers (effectBody inp st)
           = (if inTicker1 inp \<noteq> [] \<and> inTicker2 inp \<noteq> []
              then [\<lparr>timerId = nextTimerId st, fireAt = clock st + 500, captured = inp\<rparr>]
              else [])"
    and "calls (effectBody inp st) = calls st"
    and "clock (effectBody inp st) = clock st"
    and "timerOwned (effectBody inp st)"
  using assms
  by (simp_all add: effectBody_def Let_def clearTimeout_def setTimeout_def timerOwned_def
        split: option.split)

lemma effect_run:
  assumes "timerOwned st"
  shows "timers (effectBody inp (effectCleanup st))
           = (if inTicker1 inp \<noteq> [] \<and> inTicker2 inp \<noteq> []
              then [\<lparr>timerId = nextTimerId st, fireAt = clock st + 500, captured = inp\<rparr>]
              else [])"
    and "calls (effectBody inp (effectCleanup st)) = calls st"
    and "clock (effectBody inp (effectCleanup st)) = clock st"
    and "timerOwned (effectBody inp (effectCleanup st))"
  using effectBody_no_timers[OF effectCleanup_timers[OF assms], of inp]
  by (simp_all add: effectCleanup_fields)

lemma advanceTo_owned: "timerOwned st \<Longrightarrow> timerOwned (advanceTo t st)"
  by (auto simp: timerOwned_def advanceTo_def Let_def intro: le_trans[OF length_filter_le])

lemma advanceTo_clock: "clock (advanceTo t st) = max (clock st) t"
  by (simp add: advanceTo_def Let_def)

lemma advanceTo_nextTimerId: "nextTimerId (advanceTo t st) = nextTimerId st"
  by (simp add: advanceTo_def Let_def)

lemma advanceTo_nothing_due:
  assumes "\<forall>tm \<in> set (timers st). t < fireAt tm"
  shows "calls (advanceTo t st) = calls st" and "timers (advanceTo t st) = timers st"
proof -
  have "filter (\<lambda>tm. fireAt tm \<le> t) (timers st) = []"
    using assms by (auto simp: filter_empty_conv)
  then show "calls (advanceTo t st) = calls st" by (simp add: advanceTo_def Let_def)
  have "filter (\<lambda>tm. \<not> fireAt tm \<le> t) (timers st) = timers st"
    using assms by (auto simp: filter_id_conv)
  then show "timers (advanceTo t st) = timers st" by (simp add: advanceTo_def Let_def)
qed

lemma advanceTo_fires:
  assumes "timers st = [tm]" and "fireAt tm \<le> t"
  shows "calls (advanceTo t st) = calls st @ [captured tm]" and "timers (advanceTo t st) = []"
  using assms by (simp_all add: advanceTo_def Let_def)

lemma inputChange_step:
  assumes "timerOwned st" and "clock st \<le> t" and "\<forall>tm \<in> set (timers st). t < fireAt tm"
  shows "timers (inputChange st (Change t inp))
           = (if inTicker1 inp \<noteq> [] \<and> inTicker2 inp \<noteq> []
              then [\<lparr>timerId = nextTimerId st, fireAt = t + 500, captured = inp\<rparr>]
              else [])"
    and "calls (inputChange st (Change t inp)) = calls st"
    and "clock (inputChange st (Change t inp)) = t"
    and "timerOwned (inputChange st (Change t inp))"
  using effect_run[OF advanceTo_owned[OF assms(1), of t], of inp]
    advanceTo_nothing_due[OF assms(3)] assms(2)
  by (simp_all add: advanceTo_clock advanceTo_nextTimerId)

lemma timerOwned_mounted: "timerOwned mounted"
  by (simp add: mounted_def effectBody_def Let_def timerOwned_def)

lemma inputChange_owned: "timerOwned st \<Longrightarrow> timerOwned (inputChange st c)"
  by (cases c) (simp add: effect_run(4) advanceTo_owned)

lemma inputChanges_owned: "timerOwned st \<Longrightarrow> timerOwned (inputChanges cs st)"
  unfolding inputChanges_def
  by (induction cs arbitrary: st) (simp_all add: inputChange_owned)


text \<open>
  Claim C9. Three input changes at times \<open>t1 \<le> t2 \<le> t3\<close>, each less than 500 ms
  after the one before (as when all three fall within 500 ms), the last one with both
  tickers filled in: nothing is invoked while they arrive; after the third exactly one
  timer is pending, due 500 ms after it and holding its values; once that time has
  passed, exactly one invocation of \<open>fetchComparisonData\<close> has been added, with the
  inputs of the last change.
\<close>

theorem debounce_three_changes:
  assumes "timerOwned st"
    and "clock st \<le> t1"
    and "t1 \<le> t2" and "t2 < t1 + 500"
    and "t2 \<le> t3" and "t3 < t2 + 500"
    and "inTicker1 i3 \<noteq> []" and "inTicker2 i3 \<noteq> []"
    and "t3 + 500 \<le> T"
  shows "calls (advanceTo T (inputChanges [Change t1 i1, Change t2 i2, Change t3 i3] st))
           = calls (advanceTo t1 st) @ [i3]
         \<and> calls (inputChanges [Change t1 i1, Change t2 i2, Change t3 i3] st)
             = calls (advanceTo t1 st)
         \<and> length (timers (inputChanges [Change t1 i1, Change t2 i2, Change t3 i3] st)) = 1
         \<and> (\<forall>tm \<in> set (timers (inputChanges [Change t1 i1, Change t2 i2, Change t3 i3] st)).
               fireAt tm = t3 + 500 \<and> captured tm = i3)
         \<and> timers (advanceTo T (inputChanges [Change t1 i1, Change t2 i2, Change t3 i3] st)) = []"
proof -
  define A where "A = advanceTo t1 st"
  define S1 where "S1 = inputChange st (Change t1 i1)"
  define S2 where "S2 = inputChange S1 (Change t2 i2)"
  define S3 where "S3 = inputChange S2 (Change t3 i3)"
  have run: "inputChanges [Change t1 i1, Change t2 i2, Change t3 i3] st = S3"
    by (simp add: inputChanges_def S1_def S2_def S3_def)
  have A: "timerOwned A" "clock A = t1"
    using assms(1,2) by (simp_all add: A_def advanceTo_owned advanceTo_clock)
  have S1: "timerOwned S1" "clock S1 = t1" "calls S1 = calls A"
    "\<forall>tm \<in> set (timers S1). fireAt tm = t1 + 500"
    using effect_run[OF A(1), of i1] A(2) by (simp_all add: S1_def A_def split: if_splits)
  have due1: "\<forall>tm \<in> set (timers S1). t2 < fireAt tm"
    using S1(4) assms(4) by simp
  have S2: "timerOwned S2" "clock S2 = t2" "calls S2 = calls A"
    "\<forall>tm \<in> set (timers S2). fireAt tm = t2 + 500"
    using inputChange_step[OF S1(1) _ due1, of i2] S1(2,3) assms(3)
    by (simp_all add: S2_def split: if_splits)
  have due2: "\<forall>tm \<in> set (timers S2). t3 < fireAt tm"
    using S2(4) assms(6) by simp
  have S3: "calls S3 = calls A"
    "timers S3 = [\<lparr>timerId = nextTimerId S2, fireAt = t3 + 500, captured = i3\<rparr>]"
    using inputChange_step[OF S2(1) _ due2, of i3] S2(2,3) assms(5,7,8)
    by (simp_all add: S3_def)
  have fire: "calls (advanceTo T S3) = calls A @ [i3]" "timers (advanceTo T S3) = []"
    using advanceTo_fires[OF S3(2), of T] assms(9) by (simp_all add: S3(1))
  show ?thesis
    unfolding run using fire S3 by (simp add: A_def)
qed

theorem debounce_three_changes_witness:
  "(let i1 = \<lparr>inTicker1 = ''A'', inTicker2 = ''MSFT'', inTimeframe = ''1y''\<rparr>;
        i2 = \<lparr>inTicker1 = ''AA'', inTicker2 = ''MSFT'', inTimeframe = ''1y''\<rparr>;
        i3 = \<lparr>inTicker1 = ''AAPL'', inTicker2 = ''MSFT'', inTimeframe = ''1y''\<rparr>
    in timerOwned mounted
       \<and> clock mounted \<le> 1000
       \<and> (1000 :: nat) \<le> 1200 \<and> (1200 :: nat) < 1000 + 500
       \<and> (1200 :: nat) \<le> 1499 \<and> (1499 :: nat) < 1200 + 500
       \<and> inTicker1 i3 \<noteq> [] \<and> inTicker2 i3 \<noteq> [] \<and> (1499 :: nat) + 500 \<le> 2000
       \<and> calls (advanceTo 2000
                   (inputChanges [Change 1000 i1, Change 1200 i2, Change 1499 i3] mounted))
           = [i3])"
proof -
  have c: "clock mounted = 0" "calls (advanceTo 1000 mounted) = []"
    by (simp_all add: mounted_def effectBody_def advanceTo_def Let_def)
  show ?thesis
    using debounce_three_changes
            [of mounted 1000 1200 1499
                "\<lparr>inTicker1 = ''AAPL'', inTicker2 = ''MSFT'', inTimeframe = ''1y''\<rparr>" 2000
                "\<lparr>inTicker1 = ''A'', inTicker2 = ''MSFT'', inTimeframe = ''1y''\<rparr>"
                "\<lparr>inTicker1 = ''AA'', inTicker2 = ''MSFT'', inTimeframe = ''1y''\<rparr>"]
      timerOwned_mounted c
    by (simp add: Let_def)
qed


text \<open>
  For contrast: two changes more than 500 ms apart give two invocations.
\<close>

lemma debounce_spaced_example:
  "calls (advanceTo 3000
            (inputChanges
               [Change 1000 \<lparr>inTicker1 = ''A'', inTicker2 = ''M'', inTimeframe = ''1y''\<rparr>,
                Change 1600 \<lparr>inTicker1 = ''A'', inTicker2 = ''M'', inTimeframe = ''5y''\<rparr>]
               mounted))
     = [\<lparr>inTicker1 = ''A'', inTicker2 = ''M'', inTimeframe = ''1y''\<rparr>,
        \<lparr>inTicker1 = ''A'', inTicker2 = ''M'', inTimeframe = ''5y''\<rparr>]"
  by (simp add: inputChanges_def mounted_def effectBody_def effectCleanup_def advanceTo_def
        clearTimeout_def setTimeout_def Let_def)


end
